theory Spec2Isabelle
  imports Main
begin

section \<open>Data model of the chat client (frontend/src/App.jsx)\<close>

text \<open>
  A message of the active list. The user message built by \<open>handleSendMessage\<close> has
  the keys id, text, isUser and timestamp; the loading message has modelId and isTyping
  in addition, so these two are optional here. Identifiers are \<open>Date.now()\<close>
  readings, modelled as integers.
\<close>

record message =
  msg_id :: int
  msg_text :: string
  isUser :: bool
  modelId :: "string option"
  timestamp :: string
  isTyping :: "bool option"

record conversation =
  conv_id :: int
  title :: string
  conv_messages :: "message list"
  messageCount :: int
  createdAt :: string

text \<open>
  An outstanding call of \<open>handleSendMessage\<close>, suspended at its \<open>await\<close>: the
  values its closure holds (the argument, the two messages it built, and the
  \<open>currentConversationId\<close> and \<open>selectedModel\<close> of the render it was called in).
\<close>

record request =
  userMessage :: string
  userMsg :: message
  loadingMsg :: message
  seenConversationId :: "int option"
  seenModel :: string

text \<open>
  The state of the page: the \<open>useState\<close> cells of \<open>App\<close> that carry behaviour,
  the \<open>input\<close> cell of \<open>ChatInput\<close>, the local-storage slot
  \<open>heritagebot_conversations\<close> (\<open>None\<close> when the key is absent), and the calls
  of the remote service that have not settled yet.
\<close>

record app_state =
  messages :: "message list"
  isLoading :: bool
  error :: "string option"
  selectedModel :: string
  conversations :: "conversation list"
  currentConversationId :: "int option"
  input :: string
  heritagebot_conversations :: "string option"
  in_flight :: "request list"

text \<open>
  The page at its first render, over a slot that holds \<open>stored\<close>: the initial
  values of the \<open>useState\<close> cells, and nothing in flight.
\<close>

definition initial_state :: "string option \<Rightarrow> app_state" where
  "initial_state stored =
     \<lparr>messages = [], isLoading = False, error = None, selectedModel = ''gpt'',
      conversations = [], currentConversationId = None, input = [],
      heritagebot_conversations = stored, in_flight = []\<rparr>"

section \<open>JSON.stringify of the conversation collection\<close>

text \<open>
  Decimal rendering of an integer, as \<open>Number.prototype.toString\<close> gives it for the
  integers below \<open>10^21\<close> (every \<open>Date.now()\<close> reading is).
\<close>

fun show_nat :: "nat \<Rightarrow> string" where
  "show_nat n =
     (if n < 10 then [''0123456789'' ! n]
      else show_nat (n div 10) @ [''0123456789'' ! (n mod 10)])"

declare show_nat.simps [simp del]

definition show_int :: "int \<Rightarrow> string" where
  "show_int i = (if i < 0 then CHR ''-'' # show_nat (nat (- i)) else show_nat (nat i))"

text \<open>
  \<open>QuoteJSONString\<close>: the quotation mark and the backslash are escaped, the control
  characters below U+0020 get their short escape or \<open>\u00xx\<close>, everything else
  stands for itself.
\<close>

definition escape_char :: "char \<Rightarrow> string" where
  "escape_char c =
     (if c = CHR 0x22 then [CHR 0x5C, CHR 0x22]
      else if c = CHR 0x5C then [CHR 0x5C, CHR 0x5C]
      else if c = CHR 0x08 then [CHR 0x5C, CHR ''b'']
      else if c = CHR 0x09 then [CHR 0x5C, CHR ''t'']
      else if c = CHR 0x0A then [CHR 0x5C, CHR ''n'']
      else if c = CHR 0x0C then [CHR 0x5C, CHR ''f'']
      else if c = CHR 0x0D then [CHR 0x5C, CHR ''r'']
      else if (of_char c :: nat) < 32
        then [CHR 0x5C, CHR ''u'', CHR ''0'', CHR ''0'',
              ''0123456789abcdef'' ! (of_char c div 16),
              ''0123456789abcdef'' ! (of_char c mod 16)]
      else [c])"

definition quote :: "string \<Rightarrow> string" where
  "quote s = CHR 0x22 # concat (map escape_char s) @ [CHR 0x22]"

fun join_commas :: "string list \<Rightarrow> string" where
  "join_commas [] = []"
| "join_commas [x] = x"
| "join_commas (x # y # ys) = x @ '','' @ join_commas (y # ys)"

definition json_member :: "string \<Rightarrow> string \<Rightarrow> string" where
  "json_member k v = quote k @ '':'' @ v"

definition show_bool :: "bool \<Rightarrow> string" where
  "show_bool b = (if b then ''true'' else ''false'')"

text \<open>
  An object is written with its own keys in insertion order; a key whose value is
  \<open>undefined\<close> is left out. The orders are those of the object literals in
  \<open>handleSendMessage\<close> (a spread keeps the position of a key it overwrites).
\<close>

definition message_json :: "message \<Rightarrow> string" where
  "message_json m =
     ''{'' @ join_commas
       ([json_member ''id'' (show_int (msg_id m)),
         json_member ''text'' (quote (msg_text m)),
         json_member ''isUser'' (show_bool (isUser m))]
        @ (case modelId m of None \<Rightarrow> [] | Some x \<Rightarrow> [json_member ''modelId'' (quote x)])
        @ [json_member ''timestamp'' (quote (timestamp m))]
        @ (case isTyping m of None \<Rightarrow> [] | Some b \<Rightarrow> [json_member ''isTyping'' (show_bool b)]))
     @ ''}''"

definition conversation_json :: "conversation \<Rightarrow> string" where
  "conversation_json c =
     ''{'' @ join_commas
       [json_member ''id'' (show_int (conv_id c)),
        json_member ''title'' (quote (title c)),
        json_member ''messages'' (''['' @ join_commas (map message_json (conv_messages c)) @ '']''),
        json_member ''messageCount'' (show_int (messageCount c)),
        json_member ''createdAt'' (quote (createdAt c))]
     @ ''}''"

definition JSON_stringify :: "conversation list \<Rightarrow> string" where
  "JSON_stringify cs = ''['' @ join_commas (map conversation_json cs) @ '']''"

section \<open>The remote call (frontend/src/lib/api.js)\<close>

text \<open>
  What \<open>fetch\<close> and the reading of the response body can come to, typed by the
  interface of the service: the call is rejected (a network error, with the message of
  the error), a 2xx response carries \<open>{answer, model_used}\<close> or a body that
  \<open>response.json()\<close> rejects (with the message of that error), and a response
  outside 2xx carries its status and the \<open>detail\<close> of its body, \<open>None\<close> when the
  body is no JSON or has no such key.
\<close>

datatype fetch_outcome =
    Rejected string
  | Ok_response string string
  | Ok_unparseable string
  | Error_response nat "string option"

record api_response =
  answer :: string
  modelUsed :: string

text \<open>\<open>sendMessage\<close>: \<open>Inl\<close> is the message of the Error it throws.\<close>

definition sendMessage :: "fetch_outcome \<Rightarrow> string + api_response" where
  "sendMessage out =
     (case out of
        Rejected m \<Rightarrow> Inl m
      | Error_response status detail \<Rightarrow>
          Inl (case detail of
                 None \<Rightarrow> ''HTTP error! status: '' @ show_nat status
               | Some d \<Rightarrow> if d \<noteq> [] then d else ''HTTP error! status: '' @ show_nat status)
      | Ok_unparseable m \<Rightarrow> Inl m
      | Ok_response a mu \<Rightarrow> Inr \<lparr>answer = a, modelUsed = mu\<rparr>)"

section \<open>The handlers of App\<close>

text \<open>Truthiness of \<open>currentConversationId\<close>: \<open>null\<close> and the number 0 are falsy.\<close>

definition truthy_id :: "int option \<Rightarrow> bool" where
  "truthy_id v = (case v of None \<Rightarrow> False | Some n \<Rightarrow> n \<noteq> 0)"

text \<open>
  The effect on \<open>[conversations]\<close>: it runs after every render in which the
  collection is a new array, and writes the slot only when the collection is not empty.
\<close>

definition saveEffect :: "app_state \<Rightarrow> app_state" where
  "saveEffect st =
     (if length (conversations st) > 0
      then st\<lparr>heritagebot_conversations := Some (JSON_stringify (conversations st))\<rparr>
      else st)"

text \<open>
  \<open>handleSendMessage\<close> up to its \<open>await\<close>. The four clock readings are, in the
  order the code takes them: \<open>Date.now()\<close> and \<open>new Date().toISOString()\<close> for
  the user message, then the same two for the loading message.
\<close>

definition handleSendMessage ::
  "string \<Rightarrow> int \<Rightarrow> string \<Rightarrow> int \<Rightarrow> string \<Rightarrow> app_state \<Rightarrow> app_state" where
  "handleSendMessage text now1 ts1 now2 ts2 st =
     (let uMsg = \<lparr>msg_id = now1, msg_text = text, isUser = True, modelId = None,
                   timestamp = ts1, isTyping = None\<rparr>;
          lMsg = \<lparr>msg_id = now2 + 1, msg_text = [], isUser = False,
                   modelId = Some (selectedModel st), timestamp = ts2,
                   isTyping = Some True\<rparr>
      in st\<lparr>error := None,
            messages := (messages st @ [uMsg]) @ [lMsg],
            isLoading := True,
            in_flight := in_flight st @
              [\<lparr>userMessage = text, userMsg = uMsg, loadingMsg = lMsg,
                seenConversationId = currentConversationId st,
                seenModel = selectedModel st\<rparr>]\<rparr>)"

text \<open>The loading message with the answer filled in: \<open>{...msg, text, isTyping: false}\<close>.\<close>

definition resolved :: "string \<Rightarrow> message \<Rightarrow> message" where
  "resolved a msg = msg\<lparr>msg_text := a, isTyping := Some False\<rparr>"

definition append_exchange :: "request \<Rightarrow> string \<Rightarrow> conversation \<Rightarrow> conversation" where
  "append_exchange r a conv =
     conv\<lparr>conv_messages := conv_messages conv @ [userMsg r, resolved a (loadingMsg r)],
          title := (if title conv \<noteq> [] then title conv else take 50 (userMessage r)),
          messageCount := messageCount conv + 2\<rparr>"

text \<open>
  The rest of \<open>handleSendMessage\<close>, run when the remote call of request \<open>r\<close>
  settles with \<open>out\<close>; \<open>now\<close> and \<open>ts\<close> are the clock readings of the
  branch that creates a conversation. The collection is replaced exactly in the success
  branch, so the save effect follows there.
\<close>

definition settle :: "request \<Rightarrow> fetch_outcome \<Rightarrow> int \<Rightarrow> string \<Rightarrow> app_state \<Rightarrow> app_state" where
  "settle r out now ts st =
     (case sendMessage out of
        Inr response \<Rightarrow>
          (let st1 = st\<lparr>messages :=
                        map (\<lambda>msg. if msg_id msg = msg_id (loadingMsg r)
                                   then resolved (answer response) msg else msg)
                            (messages st)\<rparr>;
               st2 =
                 (if truthy_id (seenConversationId r)
                  then st1\<lparr>conversations :=
                             map (\<lambda>conv. if Some (conv_id conv) = seenConversationId r
                                         then append_exchange r (answer response) conv
                                         else conv)
                                 (conversations st1)\<rparr>
                  else
                    (let newConversation =
                           \<lparr>conv_id = now, title = take 50 (userMessage r),
                            conv_messages = [userMsg r, resolved (answer response) (loadingMsg r)],
                            messageCount = 2, createdAt = ts\<rparr>
                     in st1\<lparr>conversations := newConversation # conversations st1,
                            currentConversationId := Some (conv_id newConversation)\<rparr>))
           in saveEffect (st2\<lparr>isLoading := False\<rparr>))
      | Inl m \<Rightarrow>
          st\<lparr>error := Some (if m \<noteq> [] then m else ''Failed to get response. Please try again.''),
             messages := filter (\<lambda>msg. msg_id msg \<noteq> msg_id (loadingMsg r)) (messages st),
             isLoading := False\<rparr>)"

definition handleNewChat :: "app_state \<Rightarrow> app_state" where
  "handleNewChat st = st\<lparr>messages := [], currentConversationId := None, error := None\<rparr>"

definition handleSelectConversation :: "int \<Rightarrow> app_state \<Rightarrow> app_state" where
  "handleSelectConversation conversationId st =
     (case find (\<lambda>c. conv_id c = conversationId) (conversations st) of
        Some conversation \<Rightarrow>
          st\<lparr>messages := conv_messages conversation,
             currentConversationId := Some conversationId,
             error := None\<rparr>
      | None \<Rightarrow> st)"

text \<open>
  \<open>handleDeleteConversation\<close>. It replaces the collection, so the save effect
  follows.
\<close>

definition handleDeleteConversation :: "int \<Rightarrow> app_state \<Rightarrow> app_state" where
  "handleDeleteConversation conversationId st =
     (let st1 = st\<lparr>conversations :=
                   filter (\<lambda>c. conv_id c \<noteq> conversationId) (conversations st)\<rparr>
      in saveEffect
           (if currentConversationId st = Some conversationId then handleNewChat st1 else st1))"

section \<open>The input box (frontend/src/components/ChatInput.jsx) and the welcome screen\<close>

text \<open>
  \<open>String.prototype.trim\<close> on code units below 256: the white space and line
  terminators are TAB, LF, VT, FF, CR, SP and NBSP.
\<close>

definition is_js_space :: "char \<Rightarrow> bool" where
  "is_js_space c =
     (c = CHR 0x09 \<or> c = CHR 0x0A \<or> c = CHR 0x0B \<or> c = CHR 0x0C \<or> c = CHR 0x0D
      \<or> c = CHR 0x20 \<or> c = CHR 0xA0)"

definition trim :: "string \<Rightarrow> string" where
  "trim s = rev (dropWhile is_js_space (rev (dropWhile is_js_space s)))"

definition handleSubmit :: "int \<Rightarrow> string \<Rightarrow> int \<Rightarrow> string \<Rightarrow> app_state \<Rightarrow> app_state" where
  "handleSubmit now1 ts1 now2 ts2 st =
     (if trim (input st) \<noteq> [] \<and> \<not> isLoading st
      then (handleSendMessage (trim (input st)) now1 ts1 now2 ts2 st)\<lparr>input := []\<rparr>
      else st)"

definition showWelcome :: "app_state \<Rightarrow> bool" where
  "showWelcome st =
     (length (messages st) = 0 \<and> (case error st of None \<Rightarrow> True | Some e \<Rightarrow> e = []))"

definition suggestions :: "string list" where
  "suggestions =
     [''What is the history of Twinings?'',
      ''Tell me about Ovaltine products'',
      ''How is tea processed?'',
      ''What are ABF'' @ [CHR 0x27] @ ''s core values?'']"

text \<open>
  A click on the \<open>idx\<close>-th suggestion button. The buttons are rendered only on the
  welcome screen; their \<open>onClick\<close> calls \<open>handleSendMessage\<close> directly. The
  clicks the page still takes while the welcome screen plays its exit animation are not
  part of this model: a click counts only while \<open>showWelcome\<close> holds.
\<close>

definition clickSuggestion :: "nat \<Rightarrow> int \<Rightarrow> string \<Rightarrow> int \<Rightarrow> string \<Rightarrow> app_state \<Rightarrow> app_state" where
  "clickSuggestion idx now1 ts1 now2 ts2 st =
     (if showWelcome st \<and> idx < length suggestions
      then handleSendMessage (suggestions ! idx) now1 ts1 now2 ts2 st
      else st)"

section \<open>The page as a transition system\<close>

text \<open>
  What can happen to the page: the user types, submits the form, clicks a suggestion,
  picks a model, starts a new chat, selects or deletes a conversation in the sidebar; or
  the \<open>k\<close>-th outstanding remote call settles. Events that run
  \<open>handleSendMessage\<close> carry its clock readings.
\<close>

datatype event =
    Typed string
  | Submitted int string int string
  | Suggested nat int string int string
  | ModelChanged string
  | NewChatClicked
  | Selected int
  | Deleted int
  | Settled nat fetch_outcome int string

fun step :: "event \<Rightarrow> app_state \<Rightarrow> app_state" where
  "step (Typed s) st = st\<lparr>input := s\<rparr>"
| "step (Submitted now1 ts1 now2 ts2) st = handleSubmit now1 ts1 now2 ts2 st"
| "step (Suggested idx now1 ts1 now2 ts2) st = clickSuggestion idx now1 ts1 now2 ts2 st"
| "step (ModelChanged m) st = st\<lparr>selectedModel := m\<rparr>"
| "step NewChatClicked st = handleNewChat st"
| "step (Selected cid) st = handleSelectConversation cid st"
| "step (Deleted cid) st = handleDeleteConversation cid st"
| "step (Settled k out now ts) st =
     (if k < length (in_flight st)
      then settle (in_flight st ! k) out now ts
             (st\<lparr>in_flight := take k (in_flight st) @ drop (Suc k) (in_flight st)\<rparr>)
      else st)"

fun run :: "event list \<Rightarrow> app_state \<Rightarrow> app_state" where
  "run [] st = st"
| "run (e # es) st = run es (step e st)"

text \<open>The events that replace the collection (they call \<open>setConversations\<close>).\<close>

fun mutates :: "event \<Rightarrow> app_state \<Rightarrow> bool" where
  "mutates (Deleted cid) st = True"
| "mutates (Settled k (Ok_response a mu) now ts) st = (k < length (in_flight st))"
| "mutates ev st = False"

text \<open>
  The clicks on a suggestion button, and the state of a page on which the gate of the
  form has held: at most one remote call is outstanding, and \<open>isLoading\<close> says
  whether one is.
\<close>

fun is_suggestion :: "event \<Rightarrow> bool" where
  "is_suggestion (Suggested idx now1 ts1 now2 ts2) = True"
| "is_suggestion ev = False"

definition gated :: "app_state \<Rightarrow> bool" where
  "gated st = (length (in_flight st) \<le> 1 \<and> isLoading st = (in_flight st \<noteq> []))"

text \<open>
  Two example runs from the empty page, used to instantiate the theorems below: one
  completed exchange, which creates the conversation 1800 and makes it current, and then
  a second one in a new chat, which creates the conversation 2800.
\<close>

definition one_chat :: app_state where
  "one_chat =
     run [Typed ''hi'', Submitted 1700 ''t1'' 1700 ''t2'',
          Settled 0 (Ok_response ''yo'' ''gpt'') 1800 ''t3'']
       (initial_state None)"

definition two_chats :: app_state where
  "two_chats =
     run [NewChatClicked, Typed ''more'', Submitted 2700 ''t4'' 2700 ''t5'',
          Settled 0 (Ok_response ''ok'' ''gpt'') 2800 ''t6'']
       one_chat"

section \<open>JSON.parse and the load effect\<close>

text \<open>
  The value \<open>JSON.parse\<close> builds from a text. A string is kept as its UTF-16 code
  units (a \<open>\u\<close> escape can name any of them), a number as its literal (the Number
  it denotes is the nearest double), an object as its members in the order of the text
  (in the object the engine builds, a later member overrides an earlier one of the same
  key).
\<close>

datatype json =
    JNull
  | JBool bool
  | JNumber string
  | JString "nat list"
  | JArray "json list"
  | JObject "(nat list \<times> json) list"

datatype js_error = SyntaxError

datatype token =
    LBrace | RBrace | LBracket | RBracket | Colon | Comma
  | TString "nat list" | TNumber string | TTrue | TFalse | TNull

definition is_digit :: "char \<Rightarrow> bool" where
  "is_digit c = (48 \<le> (of_char c :: nat) \<and> (of_char c :: nat) \<le> 57)"

definition hex_value :: "char \<Rightarrow> nat option" where
  "hex_value c =
     (let n = (of_char c :: nat)
      in if 48 \<le> n \<and> n \<le> 57 then Some (n - 48)
         else if 97 \<le> n \<and> n \<le> 102 then Some (n - 87)
         else if 65 \<le> n \<and> n \<le> 70 then Some (n - 55)
         else None)"

text \<open>The character a one-letter escape stands for.\<close>

definition escape_value :: "char \<Rightarrow> nat option" where
  "escape_value e =
     (if e = CHR 0x22 then Some 0x22
      else if e = CHR 0x5C then Some 0x5C
      else if e = CHR ''/'' then Some 0x2F
      else if e = CHR ''b'' then Some 0x08
      else if e = CHR ''f'' then Some 0x0C
      else if e = CHR ''n'' then Some 0x0A
      else if e = CHR ''r'' then Some 0x0D
      else if e = CHR ''t'' then Some 0x09
      else None)"

definition cons_unit :: "nat \<Rightarrow> (nat list \<times> string) option \<Rightarrow> (nat list \<times> string) option" where
  "cons_unit u res = (case res of None \<Rightarrow> None | Some (s, rest) \<Rightarrow> Some (u # s, rest))"

text \<open>
  The characters of a string literal after its opening quotation mark: the code units
  up to the closing mark, and the text after it. A control character below U+0020 and
  an unknown escape are refused.
\<close>

fun lex_string :: "string \<Rightarrow> (nat list \<times> string) option" where
  "lex_string [] = None"
| "lex_string (c # cs) =
     (if c = CHR 0x22 then Some ([], cs)
      else if c = CHR 0x5C then
        (case cs of
           [] \<Rightarrow> None
         | e # es \<Rightarrow>
             if e = CHR ''u'' then
               (case es of
                  h1 # h2 # h3 # h4 # rest \<Rightarrow>
                    (case (hex_value h1, hex_value h2, hex_value h3, hex_value h4) of
                       (Some a, Some b, Some c', Some d) \<Rightarrow>
                         cons_unit (((a * 16 + b) * 16 + c') * 16 + d) (lex_string rest)
                     | _ \<Rightarrow> None)
                | _ \<Rightarrow> None)
             else (case escape_value e of
                     None \<Rightarrow> None
                   | Some u \<Rightarrow> cons_unit u (lex_string es)))
      else if (of_char c :: nat) < 32 then None
      else cons_unit (of_char c) (lex_string cs))"

text \<open>
  A number literal at the head of the text, and the text after it: an optional minus,
  then 0 or a digit from 1 to 9 followed by digits, then an optional fraction (a point
  and at least one digit) and an optional exponent (e or E, an optional sign, at least
  one digit).
\<close>

definition lex_digits :: "string \<Rightarrow> (string \<times> string) option" where
  "lex_digits s =
     (if takeWhile is_digit s = [] then None
      else Some (takeWhile is_digit s, dropWhile is_digit s))"

definition lex_int :: "string \<Rightarrow> (string \<times> string) option" where
  "lex_int s =
     (case s of
        [] \<Rightarrow> None
      | c # cs \<Rightarrow> if c = CHR ''0'' then Some (''0'', cs) else lex_digits s)"

definition lex_frac :: "string \<Rightarrow> (string \<times> string) option" where
  "lex_frac s =
     (case s of
        [] \<Rightarrow> Some ([], s)
      | c # cs \<Rightarrow>
          if c = CHR ''.'' then
            (case lex_digits cs of None \<Rightarrow> None | Some (ds, rest) \<Rightarrow> Some (c # ds, rest))
          else Some ([], s))"

definition lex_exp :: "string \<Rightarrow> (string \<times> string) option" where
  "lex_exp s =
     (case s of
        [] \<Rightarrow> Some ([], s)
      | c # cs \<Rightarrow>
          if c = CHR ''e'' \<or> c = CHR ''E'' then
            (case cs of
               [] \<Rightarrow> None
             | g # gs \<Rightarrow>
                 if g = CHR ''+'' \<or> g = CHR ''-'' then
                   (case lex_digits gs of
                      None \<Rightarrow> None
                    | Some (ds, rest) \<Rightarrow> Some (c # g # ds, rest))
                 else
                   (case lex_digits cs of
                      None \<Rightarrow> None
                    | Some (ds, rest) \<Rightarrow> Some (c # ds, rest)))
          else Some ([], s))"

definition lex_unsigned :: "string \<Rightarrow> (string \<times> string) option" where
  "lex_unsigned s =
     (case lex_int s of
        None \<Rightarrow> None
      | Some (i, r1) \<Rightarrow>
          (case lex_frac r1 of
             None \<Rightarrow> None
           | Some (f, r2) \<Rightarrow>
               (case lex_exp r2 of
                  None \<Rightarrow> None
                | Some (e, r3) \<Rightarrow> Some (i @ f @ e, r3))))"

definition lex_number :: "string \<Rightarrow> (string \<times> string) option" where
  "lex_number s =
     (case s of
        [] \<Rightarrow> None
      | c # cs \<Rightarrow>
          if c = CHR ''-'' then
            (case lex_unsigned cs of None \<Rightarrow> None | Some (n, rest) \<Rightarrow> Some (c # n, rest))
          else lex_unsigned s)"

definition is_json_space :: "char \<Rightarrow> bool" where
  "is_json_space c = (c = CHR 0x09 \<or> c = CHR 0x0A \<or> c = CHR 0x0D \<or> c = CHR 0x20)"

definition cons_token :: "token \<Rightarrow> token list option \<Rightarrow> token list option" where
  "cons_token t res = (case res of None \<Rightarrow> None | Some ts \<Rightarrow> Some (t # ts))"

lemma cons_unit_rest:
  "cons_unit u res = Some (s, rest) \<Longrightarrow> \<exists>s'. res = Some (s', rest)"
  by (auto simp: cons_unit_def split: option.splits)

lemma lex_string_shorter: "lex_string s = Some (u, rest) \<Longrightarrow> length rest < length s"
proof (induction s arbitrary: u rule: lex_string.induct)
  case 1
  then show ?case by simp
next
  case (2 c cs)
  then show ?case
    by (fastforce split: if_splits list.splits option.splits dest!: cons_unit_rest)
qed

lemma lex_digits_shorter: "lex_digits s = Some (ds, rest) \<Longrightarrow> length rest < length s"
proof -
  assume "lex_digits s = Some (ds, rest)"
  then have "takeWhile is_digit s \<noteq> []" and "rest = dropWhile is_digit s"
    by (auto simp: lex_digits_def split: if_splits)
  moreover have "length (takeWhile is_digit s) + length (dropWhile is_digit s) = length s"
    by (metis length_append takeWhile_dropWhile_id)
  ultimately show ?thesis by (cases "takeWhile is_digit s") auto
qed

lemma lex_int_shorter: "lex_int s = Some (i, rest) \<Longrightarrow> length rest < length s"
  by (auto simp: lex_int_def split: list.splits if_splits dest: lex_digits_shorter)

lemma lex_frac_shorter: "lex_frac s = Some (f, rest) \<Longrightarrow> length rest \<le> length s"
  by (auto simp: lex_frac_def split: list.splits if_splits option.splits
        dest!: lex_digits_shorter)

lemma lex_exp_shorter: "lex_exp s = Some (e, rest) \<Longrightarrow> length rest \<le> length s"
  by (auto simp: lex_exp_def split: list.splits if_splits option.splits
        dest!: lex_digits_shorter)

lemma lex_unsigned_shorter: "lex_unsigned s = Some (n, rest) \<Longrightarrow> length rest < length s"
  by (fastforce simp: lex_unsigned_def split: option.splits
        dest!: lex_int_shorter lex_frac_shorter lex_exp_shorter)

lemma lex_number_shorter: "lex_number s = Some (n, rest) \<Longrightarrow> length rest < length s"
  by (fastforce simp: lex_number_def split: list.splits if_splits option.splits
        dest!: lex_unsigned_shorter)

text \<open>The tokens of a text; \<open>None\<close> when some part of it is no token.\<close>

function lex :: "string \<Rightarrow> token list option" where
  "lex [] = Some []"
| "lex (c # cs) =
     (if is_json_space c then lex cs
      else if c = CHR ''{'' then cons_token LBrace (lex cs)
      else if c = CHR ''}'' then cons_token RBrace (lex cs)
      else if c = CHR ''['' then cons_token LBracket (lex cs)
      else if c = CHR '']'' then cons_token RBracket (lex cs)
      else if c = CHR '':'' then cons_token Colon (lex cs)
      else if c = CHR '','' then cons_token Comma (lex cs)
      else if c = CHR 0x22 then
        (case lex_string cs of
           None \<Rightarrow> None
         | Some (s, rest) \<Rightarrow> cons_token (TString s) (lex rest))
      else if c = CHR ''-'' \<or> is_digit c then
        (case lex_number (c # cs) of
           None \<Rightarrow> None
         | Some (n, rest) \<Rightarrow> cons_token (TNumber n) (lex rest))
      else if c = CHR ''t'' \<and> take 3 cs = ''rue'' then cons_token TTrue (lex (drop 3 cs))
      else if c = CHR ''f'' \<and> take 4 cs = ''alse'' then cons_token TFalse (lex (drop 4 cs))
      else if c = CHR ''n'' \<and> take 3 cs = ''ull'' then cons_token TNull (lex (drop 3 cs))
      else None)"
  by pat_completeness auto
termination
proof (relation "measure length", goal_cases)
  case (9 c cs x2 s rest)
  then show ?case using lex_string_shorter [of cs s rest] by simp
next
  case (10 c cs x2 n rest)
  then show ?case using lex_number_shorter [of "c # cs" n rest] by simp
qed simp_all

text \<open>
  The grammar, as a push-down machine over the tokens. A frame is a container that is
  open: an array with its elements so far, or an object with its members so far and the
  key that waits for its value (both lists newest first).
\<close>

datatype frame =
    InArray "json list"
  | InObject "(nat list \<times> json) list" "nat list option"

datatype expect = AValue | AValueOrEnd | AKeyOrEnd | AKey | AColon | ACommaOrEnd

datatype pstate = Parsing "frame list" expect | Finished json | Failed

fun push_value :: "json \<Rightarrow> frame list \<Rightarrow> pstate" where
  "push_value v [] = Finished v"
| "push_value v (InArray es # fs) = Parsing (InArray (v # es) # fs) ACommaOrEnd"
| "push_value v (InObject ms (Some k) # fs) = Parsing (InObject ((k, v) # ms) None # fs) ACommaOrEnd"
| "push_value v (InObject ms None # fs) = Failed"

fun close_array :: "frame list \<Rightarrow> pstate" where
  "close_array (InArray es # fs) = push_value (JArray (rev es)) fs"
| "close_array fs = Failed"

fun close_object :: "frame list \<Rightarrow> pstate" where
  "close_object (InObject ms None # fs) = push_value (JObject (rev ms)) fs"
| "close_object fs = Failed"

fun value_token :: "frame list \<Rightarrow> token \<Rightarrow> pstate" where
  "value_token fs LBracket = Parsing (InArray [] # fs) AValueOrEnd"
| "value_token fs LBrace = Parsing (InObject [] None # fs) AKeyOrEnd"
| "value_token fs (TString s) = push_value (JString s) fs"
| "value_token fs (TNumber n) = push_value (JNumber n) fs"
| "value_token fs TTrue = push_value (JBool True) fs"
| "value_token fs TFalse = push_value (JBool False) fs"
| "value_token fs TNull = push_value JNull fs"
| "value_token fs t = Failed"

fun key_token :: "frame list \<Rightarrow> token \<Rightarrow> pstate" where
  "key_token (InObject ms None # fs) (TString k) = Parsing (InObject ms (Some k) # fs) AColon"
| "key_token fs t = Failed"

fun after_comma :: "frame list \<Rightarrow> pstate" where
  "after_comma (InArray es # fs) = Parsing (InArray es # fs) AValue"
| "after_comma (InObject ms None # fs) = Parsing (InObject ms None # fs) AKey"
| "after_comma fs = Failed"

fun pstep :: "pstate \<Rightarrow> token \<Rightarrow> pstate" where
  "pstep (Parsing fs AValue) t = value_token fs t"
| "pstep (Parsing fs AValueOrEnd) t = (if t = RBracket then close_array fs else value_token fs t)"
| "pstep (Parsing fs AKeyOrEnd) t = (if t = RBrace then close_object fs else key_token fs t)"
| "pstep (Parsing fs AKey) t = key_token fs t"
| "pstep (Parsing fs AColon) t = (if t = Colon then Parsing fs AValue else Failed)"
| "pstep (Parsing fs ACommaOrEnd) t =
     (if t = Comma then after_comma fs
      else if t = RBracket then close_array fs
      else if t = RBrace then close_object fs
      else Failed)"
| "pstep (Finished v) t = Failed"
| "pstep Failed t = Failed"

text \<open>\<open>JSON.parse\<close>: the value of the text, or the SyntaxError it throws.\<close>

definition JSON_parse :: "string \<Rightarrow> js_error + json" where
  "JSON_parse s =
     (case lex s of
        None \<Rightarrow> Inl SyntaxError
      | Some ts \<Rightarrow>
          (case foldl pstep (Parsing [] AValue) ts of
             Finished v \<Rightarrow> Inr v
           | _ \<Rightarrow> Inl SyntaxError))"

text \<open>
  The effect that runs once on mount (App.jsx, lines 27 to 34): it reads the slot and,
  when the text read is truthy (there, and not empty), calls \<open>JSON.parse\<close> on it,
  outside any \<open>try\<close>, and makes the value the collection. \<open>Inl\<close> is the error the
  effect throws; \<open>Inr None\<close> is the run that leaves the collection as it is, empty;
  \<open>Inr (Some v)\<close> is the run that calls \<open>setConversations\<close> with \<open>v\<close>.
\<close>

definition loadEffect :: "string option \<Rightarrow> js_error + json option" where
  "loadEffect savedConversations =
     (case savedConversations of
        None \<Rightarrow> Inr None
      | Some s \<Rightarrow>
          if s \<noteq> [] then
            (case JSON_parse s of Inl e \<Rightarrow> Inl e | Inr parsed \<Rightarrow> Inr (Some parsed))
          else Inr None)"

text \<open>
  The values that \<open>JSON.parse\<close> builds for the texts \<open>JSON.stringify\<close> writes: a
  message and a conversation as the objects they are in the page, with the keys in the
  order of the text, a key whose value is \<open>undefined\<close> left out.
\<close>

definition units :: "string \<Rightarrow> nat list" where
  "units s = map of_char s"

definition message_value :: "message \<Rightarrow> json" where
  "message_value m =
     JObject
       ([(units ''id'', JNumber (show_int (msg_id m))),
         (units ''text'', JString (units (msg_text m))),
         (units ''isUser'', JBool (isUser m))]
        @ (case modelId m of None \<Rightarrow> [] | Some x \<Rightarrow> [(units ''modelId'', JString (units x))])
        @ [(units ''timestamp'', JString (units (timestamp m)))]
        @ (case isTyping m of None \<Rightarrow> [] | Some b \<Rightarrow> [(units ''isTyping'', JBool b)]))"

definition conversation_value :: "conversation \<Rightarrow> json" where
  "conversation_value c =
     JObject
       [(units ''id'', JNumber (show_int (conv_id c))),
        (units ''title'', JString (units (title c))),
        (units ''messages'', JArray (map message_value (conv_messages c))),
        (units ''messageCount'', JNumber (show_int (messageCount c))),
        (units ''createdAt'', JString (units (createdAt c)))]"

definition collection_value :: "conversation list \<Rightarrow> json" where
  "collection_value cs = JArray (map conversation_value cs)"

text \<open>
  Two notions for the proofs about \<open>JSON.parse\<close>: the characters that follow a
  number in a serialized object, and the state the machine reaches from a state by
  reading a text (lexing it and running the tokens).
\<close>

definition ends_number :: "char \<Rightarrow> bool" where
  "ends_number c = (c = CHR '','' \<or> c = CHR ''}'')"

definition feed :: "pstate \<Rightarrow> string \<Rightarrow> pstate" where
  "feed st s = (case lex s of None \<Rightarrow> Failed | Some ts \<Rightarrow> foldl pstep st ts)"

section \<open>Basic facts about the handlers\<close>

lemma saveEffect_fields [simp]:
  "messages (saveEffect st) = messages st"
  "isLoading (saveEffect st) = isLoading st"
  "error (saveEffect st) = error st"
  "selectedModel (saveEffect st) = selectedModel st"
  "conversations (saveEffect st) = conversations st"
  "currentConversationId (saveEffect st) = currentConversationId st"
  "input (saveEffect st) = input st"
  "in_flight (saveEffect st) = in_flight st"
  by (simp_all add: saveEffect_def)

lemma saveEffect_slot:
  "heritagebot_conversations (saveEffect st) =
     (if conversations st = [] then heritagebot_conversations st
      else Some (JSON_stringify (conversations st)))"
  by (simp add: saveEffect_def)

lemma trim_blank: "\<forall>c\<in>set s. is_js_space c \<Longrightarrow> trim s = []"
proof -
  assume "\<forall>c\<in>set s. is_js_space c"
  then have blank: "dropWhile is_js_space s = []" by (simp add: dropWhile_eq_Nil_conv)
  show ?thesis unfolding trim_def blank by simp
qed

lemma last_in_flight:
  "last (in_flight (handleSendMessage text now1 ts1 now2 ts2 st)) =
     \<lparr>userMessage = text,
      userMsg = \<lparr>msg_id = now1, msg_text = text, isUser = True, modelId = None,
                 timestamp = ts1, isTyping = None\<rparr>,
      loadingMsg = \<lparr>msg_id = now2 + 1, msg_text = [], isUser = False,
                    modelId = Some (selectedModel st), timestamp = ts2, isTyping = Some True\<rparr>,
      seenConversationId = currentConversationId st,
      seenModel = selectedModel st\<rparr>"
  by (simp add: handleSendMessage_def Let_def)

lemma messages_handleSendMessage:
  "messages (handleSendMessage text now1 ts1 now2 ts2 st) =
     messages st @
     [\<lparr>msg_id = now1, msg_text = text, isUser = True, modelId = None,
       timestamp = ts1, isTyping = None\<rparr>,
      \<lparr>msg_id = now2 + 1, msg_text = [], isUser = False,
       modelId = Some (selectedModel st), timestamp = ts2, isTyping = Some True\<rparr>]"
  by (simp add: handleSendMessage_def Let_def)

lemma handleSendMessage_frame:
  "conversations (handleSendMessage text now1 ts1 now2 ts2 st) = conversations st"
  "heritagebot_conversations (handleSendMessage text now1 ts1 now2 ts2 st) =
     heritagebot_conversations st"
  by (simp_all add: handleSendMessage_def Let_def)

lemma handleSelectConversation_frame:
  "conversations (handleSelectConversation cid st) = conversations st"
  "heritagebot_conversations (handleSelectConversation cid st) = heritagebot_conversations st"
  by (simp_all add: handleSelectConversation_def split: option.splits)

lemma settle_ok_conversations:
  "conversations (settle r (Ok_response a mu) now ts st) =
     (if truthy_id (seenConversationId r)
      then map (\<lambda>conv. if Some (conv_id conv) = seenConversationId r
                        then append_exchange r a conv else conv) (conversations st)
      else \<lparr>conv_id = now, title = take 50 (userMessage r),
            conv_messages = [userMsg r, resolved a (loadingMsg r)],
            messageCount = 2, createdAt = ts\<rparr> # conversations st)"
  by (simp add: settle_def sendMessage_def Let_def cong: if_cong)

lemma settle_ok_current:
  "currentConversationId (settle r (Ok_response a mu) now ts st) =
     (if truthy_id (seenConversationId r) then currentConversationId st else Some now)"
  by (simp add: settle_def sendMessage_def Let_def)

lemma settle_ok_messages:
  "messages (settle r (Ok_response a mu) now ts st) =
     map (\<lambda>msg. if msg_id msg = msg_id (loadingMsg r) then resolved a msg else msg) (messages st)"
  by (simp add: settle_def sendMessage_def Let_def cong: if_cong)

lemma settle_ignores_model_used:
  "settle r (Ok_response a mu) now ts st = settle r (Ok_response a mu') now ts st"
  by (simp add: settle_def sendMessage_def Let_def cong: if_cong)

lemma settle_failed:
  "sendMessage out = Inl m \<Longrightarrow>
   settle r out now ts st =
     st\<lparr>error := Some (if m \<noteq> [] then m else ''Failed to get response. Please try again.''),
        messages := filter (\<lambda>msg. msg_id msg \<noteq> msg_id (loadingMsg r)) (messages st),
        isLoading := False\<rparr>"
  by (simp add: settle_def)

lemma settle_failed_conversations:
  "sendMessage out = Inl m \<Longrightarrow> conversations (settle r out now ts st) = conversations st"
  by (simp add: settle_def)

lemma settle_slot:
  "heritagebot_conversations (settle r out now ts st) =
     (case out of
        Ok_response a mu \<Rightarrow>
          (if conversations (settle r out now ts st) = [] then heritagebot_conversations st
           else Some (JSON_stringify (conversations (settle r out now ts st))))
      | _ \<Rightarrow> heritagebot_conversations st)"
  by (simp add: settle_def sendMessage_def Let_def saveEffect_slot split: fetch_outcome.splits)

lemma delete_slot:
  "heritagebot_conversations (handleDeleteConversation cid st) =
     (if conversations (handleDeleteConversation cid st) = [] then heritagebot_conversations st
      else Some (JSON_stringify (conversations (handleDeleteConversation cid st))))"
  by (simp add: handleDeleteConversation_def Let_def saveEffect_slot handleNewChat_def)

lemma JSON_stringify_Cons: "JSON_stringify (c # cs) \<noteq> JSON_stringify []"
proof -
  have "join_commas (map conversation_json (c # cs)) \<noteq> []"
    by (cases cs) (simp_all add: conversation_json_def)
  then show ?thesis by (simp add: JSON_stringify_def)
qed

text \<open>The two example runs, evaluated.\<close>

lemma one_chat_eval:
  "one_chat =
     \<lparr>messages =
        [\<lparr>msg_id = 1700, msg_text = ''hi'', isUser = True, modelId = None,
          timestamp = ''t1'', isTyping = None\<rparr>,
         \<lparr>msg_id = 1701, msg_text = ''yo'', isUser = False, modelId = Some ''gpt'',
          timestamp = ''t2'', isTyping = Some False\<rparr>],
      isLoading = False, error = None, selectedModel = ''gpt'',
      conversations =
        [\<lparr>conv_id = 1800, title = ''hi'',
          conv_messages =
            [\<lparr>msg_id = 1700, msg_text = ''hi'', isUser = True, modelId = None,
              timestamp = ''t1'', isTyping = None\<rparr>,
             \<lparr>msg_id = 1701, msg_text = ''yo'', isUser = False, modelId = Some ''gpt'',
              timestamp = ''t2'', isTyping = Some False\<rparr>],
          messageCount = 2, createdAt = ''t3''\<rparr>],
      currentConversationId = Some 1800, input = [],
      heritagebot_conversations =
        Some (JSON_stringify
          [\<lparr>conv_id = 1800, title = ''hi'',
            conv_messages =
              [\<lparr>msg_id = 1700, msg_text = ''hi'', isUser = True, modelId = None,
                timestamp = ''t1'', isTyping = None\<rparr>,
               \<lparr>msg_id = 1701, msg_text = ''yo'', isUser = False, modelId = Some ''gpt'',
                timestamp = ''t2'', isTyping = Some False\<rparr>],
            messageCount = 2, createdAt = ''t3''\<rparr>]),
      in_flight = []\<rparr>"
  by (simp add: one_chat_def initial_state_def handleSubmit_def trim_def is_js_space_def
        handleSendMessage_def settle_def sendMessage_def truthy_id_def saveEffect_def
        resolved_def Let_def)

lemma two_chats_eval:
  "currentConversationId two_chats = Some 2800"
  "map conv_id (conversations two_chats) = [2800, 1800]"
  "map msg_id (messages two_chats) = [2700, 2701]"
  "map messageCount (conversations two_chats) = [2, 2]"
  "map (map msg_text \<circ> conv_messages) (conversations two_chats) = [[''more'', ''ok''], [''hi'', ''yo'']]"
  "error two_chats = None"
  "isLoading two_chats = False"
  "in_flight two_chats = []"
  by (simp_all add: two_chats_def one_chat_eval handleNewChat_def handleSubmit_def trim_def
        is_js_space_def handleSendMessage_def settle_def sendMessage_def truthy_id_def
        resolved_def Let_def)

lemma conv_id_filter:
  "map conv_id (filter (\<lambda>c. conv_id c \<noteq> k) cs) = filter (\<lambda>i. i \<noteq> k) (map conv_id cs)"
  by (induction cs) auto

lemma gate_while_loading: "isLoading st \<Longrightarrow> handleSubmit now1 ts1 now2 ts2 st = st"
  by (simp add: handleSubmit_def)

lemma settle_flags:
  "in_flight (settle r out now ts st) = in_flight st"
  "isLoading (settle r out now ts st) = False"
  by (simp_all add: settle_def Let_def split: sum.splits)

lemma gated_step: "gated st \<Longrightarrow> \<not> is_suggestion ev \<Longrightarrow> gated (step ev st)"
proof (cases ev)
  case (Submitted now1 ts1 now2 ts2)
  assume "gated st"
  then show ?thesis
    using Submitted by (auto simp: gated_def handleSubmit_def handleSendMessage_def Let_def)
next
  case (Settled k out now ts)
  assume g: "gated st"
  show ?thesis
  proof (cases "k < length (in_flight st)")
    case True
    with g have "k = 0" "length (in_flight st) = 1" by (auto simp: gated_def)
    with Settled True show ?thesis by (simp add: gated_def settle_flags)
  next
    case False
    with g Settled show ?thesis by simp
  qed
next
  case (Selected cid)
  assume "gated st"
  then show ?thesis using Selected
    by (auto simp: gated_def handleSelectConversation_def split: option.splits)
next
  case (Deleted cid)
  assume "gated st"
  then show ?thesis using Deleted
    by (auto simp: gated_def handleDeleteConversation_def handleNewChat_def Let_def)
qed (auto simp: gated_def handleNewChat_def)

lemma gated_run: "gated st \<Longrightarrow> \<forall>e\<in>set evs. \<not> is_suggestion e \<Longrightarrow> gated (run evs st)"
  by (induction evs arbitrary: st) (auto intro: gated_step)

section \<open>JSON.parse reads back what JSON.stringify wrote\<close>

lemma below_ten: "k < 10 \<Longrightarrow> k \<in> {0, 1, 2, 3, 4, 5, 6, 7, 8, 9::nat}"
  by auto

lemma digit_is_digit: "k < 10 \<Longrightarrow> is_digit (''0123456789'' ! k)"
  by (drule below_ten) (auto simp: is_digit_def)

lemma digit_zero: "k < 10 \<Longrightarrow> (''0123456789'' ! k = CHR ''0'') = (k = 0)"
  by (drule below_ten) auto

lemma show_nat_digits: "c \<in> set (show_nat n) \<Longrightarrow> is_digit c"
proof (induction n rule: show_nat.induct)
  case (1 n)
  show ?case
  proof (cases "n < 10")
    case True
    with "1.prems" show ?thesis by (simp add: show_nat.simps [of n] digit_is_digit)
  next
    case False
    with "1.prems" "1.IH" show ?thesis
      by (auto simp: show_nat.simps [of n] digit_is_digit)
  qed
qed

lemma show_nat_nonempty: "show_nat n \<noteq> []"
  by (subst show_nat.simps) simp

lemma show_nat_hd: "(hd (show_nat n) = CHR ''0'') = (n = 0)"
proof (induction n rule: show_nat.induct)
  case (1 n)
  show ?case
  proof (cases "n < 10")
    case True
    then show ?thesis by (simp add: show_nat.simps [of n] digit_zero)
  next
    case False
    then have "n div 10 \<noteq> 0" by simp
    with False "1.IH" show ?thesis
      by (simp add: show_nat.simps [of n] show_nat_nonempty)
  qed
qed

lemma show_nat_0: "show_nat 0 = ''0''"
  by (simp add: show_nat.simps)

lemma takeWhile_digits:
  "\<not> is_digit c \<Longrightarrow> takeWhile is_digit (show_nat n @ c # rest) = show_nat n"
  "\<not> is_digit c \<Longrightarrow> dropWhile is_digit (show_nat n @ c # rest) = c # rest"
  by (simp_all add: takeWhile_append2 dropWhile_append2 show_nat_digits)

lemma lex_unsigned_show_nat:
  assumes "ends_number c"
  shows "lex_unsigned (show_nat n @ c # rest) = Some (show_nat n, c # rest)"
proof -
  from assms have nd: "\<not> is_digit c" and c: "c \<noteq> CHR ''.''" "c \<noteq> CHR ''e''" "c \<noteq> CHR ''E''"
    by (auto simp: ends_number_def is_digit_def)
  have int: "lex_int (show_nat n @ c # rest) = Some (show_nat n, c # rest)"
  proof (cases "n = 0")
    case True
    then show ?thesis by (simp add: show_nat_0 lex_int_def)
  next
    case False
    obtain d ds where d: "show_nat n = d # ds"
      using show_nat_nonempty [of n] by (cases "show_nat n") auto
    with False show_nat_hd [of n] have "d \<noteq> CHR ''0''" by simp
    moreover have "lex_digits (show_nat n @ c # rest) = Some (show_nat n, c # rest)"
      using nd by (simp add: lex_digits_def takeWhile_digits show_nat_nonempty)
    ultimately show ?thesis by (simp add: lex_int_def d)
  qed
  show ?thesis using c by (simp add: lex_unsigned_def int lex_frac_def lex_exp_def)
qed

lemma lex_number_show_int:
  assumes "ends_number c"
  shows "lex_number (show_int i @ c # rest) = Some (show_int i, c # rest)"
proof (cases "i < 0")
  case True
  then show ?thesis
    by (simp add: show_int_def lex_number_def lex_unsigned_show_nat [OF assms])
next
  case False
  obtain d ds where d: "show_nat (nat i) = d # ds"
    using show_nat_nonempty [of "nat i"] by (cases "show_nat (nat i)") auto
  then have "is_digit d" using show_nat_digits [of d "nat i"] by simp
  then have "d \<noteq> CHR ''-''" by (auto simp: is_digit_def)
  then have "lex_number (show_nat (nat i) @ c # rest) = lex_unsigned (show_nat (nat i) @ c # rest)"
    by (simp add: lex_number_def d)
  with False show ?thesis
    by (simp add: show_int_def lex_unsigned_show_nat [OF assms])
qed

lemma show_int_head:
  "\<exists>d ds. show_int i = d # ds \<and> (d = CHR ''-'' \<or> is_digit d)"
proof (cases "i < 0")
  case True
  then show ?thesis by (simp add: show_int_def)
next
  case False
  obtain d ds where d: "show_nat (nat i) = d # ds"
    using show_nat_nonempty [of "nat i"] by (cases "show_nat (nat i)") auto
  then have "is_digit d" using show_nat_digits [of d "nat i"] by simp
  with False d show ?thesis by (simp add: show_int_def)
qed

lemma lex_show_int:
  assumes "ends_number c"
  shows "lex (show_int i @ c # rest) = cons_token (TNumber (show_int i)) (lex (c # rest))"
proof -
  obtain d ds where d: "show_int i = d # ds" and h: "d = CHR ''-'' \<or> is_digit d"
    using show_int_head by blast
  from h have "\<not> is_json_space d" "d \<noteq> CHR ''{''" "d \<noteq> CHR ''}''" "d \<noteq> CHR ''[''"
    "d \<noteq> CHR '']''" "d \<noteq> CHR '':''" "d \<noteq> CHR '',''" "d \<noteq> CHR 0x22"
    by (auto simp: is_digit_def is_json_space_def)
  moreover have "lex_number (d # ds @ c # rest) = Some (d # ds, c # rest)"
    using lex_number_show_int [OF assms, of i rest] by (simp add: d)
  ultimately show ?thesis using h
    by (simp add: d del: lex.simps add: lex.simps(2) [of d])
qed

lemma below_sixteen:
  "k < 16 \<Longrightarrow> k \<in> {0, 1, 2, 3, 4, 5, 6, 7, 8, 9, 10, 11, 12, 13, 14, 15::nat}"
  by simp arith

lemma hex_value_digit: "k < 16 \<Longrightarrow> hex_value (''0123456789abcdef'' ! k) = Some k"
  by (drule below_sixteen) (auto simp: hex_value_def Let_def)

lemma hex_value_0: "hex_value CHR ''0'' = Some 0"
  by (simp add: hex_value_def)

lemma lex_string_escape:
  "lex_string (escape_char c @ rest) = cons_unit (of_char c) (lex_string rest)"
proof -
  consider (quote) "c = CHR 0x22" | (backslash) "c = CHR 0x5C" | (b) "c = CHR 0x08"
    | (t) "c = CHR 0x09" | (n) "c = CHR 0x0A" | (f) "c = CHR 0x0C" | (r) "c = CHR 0x0D"
    | (control) "c \<noteq> CHR 0x22" "c \<noteq> CHR 0x5C" "c \<noteq> CHR 0x08" "c \<noteq> CHR 0x09"
        "c \<noteq> CHR 0x0A" "c \<noteq> CHR 0x0C" "c \<noteq> CHR 0x0D" "(of_char c :: nat) < 32"
    | (plain) "c \<noteq> CHR 0x22" "c \<noteq> CHR 0x5C" "\<not> (of_char c :: nat) < 32"
    by (cases "(of_char c :: nat) < 32") auto
  then show ?thesis
  proof cases
    case control
    let ?n = "of_char c :: nat"
    have hi: "hex_value (''0123456789abcdef'' ! (?n div 16)) = Some (?n div 16)"
      using control by (intro hex_value_digit) simp
    have lo: "hex_value (''0123456789abcdef'' ! (?n mod 16)) = Some (?n mod 16)"
      by (intro hex_value_digit) simp
    have "?n div 16 * 16 + ?n mod 16 = ?n" by simp
    with control show ?thesis
      by (simp add: escape_char_def hi lo hex_value_0)
  next
    case plain
    then have "escape_char c = [c]" by (auto simp: escape_char_def)
    with plain show ?thesis by simp
  qed (simp_all add: escape_char_def escape_value_def)
qed

lemma lex_string_quoted:
  "lex_string (concat (map escape_char s) @ CHR 0x22 # rest) = Some (units s, rest)"
  by (induction s) (simp_all add: units_def lex_string_escape cons_unit_def)

lemma lex_quote: "lex (quote s @ rest) = cons_token (TString (units s)) (lex rest)"
  using lex_string_quoted [of s rest]
  by (simp add: quote_def is_json_space_def)

lemma foldl_pstep_Failed: "foldl pstep Failed ts = Failed"
  by (induction ts) simp_all

lemma feed_token: "lex s = cons_token t (lex r) \<Longrightarrow> feed st s = feed (pstep st t) r"
  by (simp add: feed_def cons_token_def split: option.splits)

lemma feed_Failed: "feed Failed s = Failed"
  by (simp add: feed_def foldl_pstep_Failed split: option.splits)

lemma JSON_parse_feed:
  "JSON_parse s = (case feed (Parsing [] AValue) s of Finished v \<Rightarrow> Inr v | _ \<Rightarrow> Inl SyntaxError)"
  by (simp add: JSON_parse_def feed_def split: option.splits)

lemma feed_Nil: "feed st [] = st"
  by (simp add: feed_def)

lemma feed_punct:
  "feed st (CHR ''{'' # r) = feed (pstep st LBrace) r"
  "feed st (CHR ''}'' # r) = feed (pstep st RBrace) r"
  "feed st (CHR ''['' # r) = feed (pstep st LBracket) r"
  "feed st (CHR '']'' # r) = feed (pstep st RBracket) r"
  "feed st (CHR '':'' # r) = feed (pstep st Colon) r"
  "feed st (CHR '','' # r) = feed (pstep st Comma) r"
  by (rule feed_token, simp add: is_json_space_def)+

lemma feed_quote: "feed st (quote s @ r) = feed (pstep st (TString (units s))) r"
  by (rule feed_token) (rule lex_quote)

lemma feed_show_int:
  "ends_number c \<Longrightarrow> feed st (show_int i @ c # r) = feed (pstep st (TNumber (show_int i))) (c # r)"
  by (rule feed_token) (rule lex_show_int)

lemma feed_show_bool:
  "feed st (show_bool b @ r) = feed (pstep st (if b then TTrue else TFalse)) r"
  by (rule feed_token) (simp add: show_bool_def is_json_space_def is_digit_def)

lemma ends_number_simps [simp]: "ends_number CHR '',''" "ends_number CHR ''}''"
  by (simp_all add: ends_number_def)

lemma feed_message:
  assumes "e = AValue \<or> e = AValueOrEnd"
  shows "feed (Parsing fs e) (message_json m @ r) = feed (push_value (message_value m) fs) r"
  using assms
  by (cases "modelId m"; cases "isTyping m")
     (auto simp: message_json_def message_value_def json_member_def
        feed_punct feed_quote feed_show_int feed_show_bool)

lemma feed_elements:
  assumes elem: "\<And>x fs e r. x \<in> set xs \<Longrightarrow> e = AValue \<or> e = AValueOrEnd \<Longrightarrow>
            feed (Parsing fs e) (f x @ r) = feed (push_value (g x) fs) r"
  shows "xs \<noteq> [] \<Longrightarrow> e = AValue \<or> e = AValueOrEnd \<Longrightarrow>
         feed (Parsing (InArray es # fs) e) (join_commas (map f xs) @ CHR '']'' # r)
           = feed (push_value (JArray (rev es @ map g xs)) fs) r"
  using elem
proof (induction xs arbitrary: es e)
  case Nil
  then show ?case by simp
next
  case (Cons x xs)
  show ?case
  proof (cases xs)
    case Nil
    with Cons.prems show ?thesis by (simp add: feed_punct)
  next
    case (Cons y ys)
    have "feed (Parsing (InArray es # fs) e) (join_commas (map f (x # xs)) @ CHR '']'' # r)
            = feed (Parsing (InArray (g x # es) # fs) AValue)
                (join_commas (map f xs) @ CHR '']'' # r)"
      using Cons.prems Cons by (simp add: feed_punct)
    also have "\<dots> = feed (push_value (JArray (rev (g x # es) @ map g xs)) fs) r"
      using Cons Cons.prems by (intro Cons.IH) auto
    finally show ?thesis by simp
  qed
qed

lemma feed_array:
  assumes elem: "\<And>x fs e r. x \<in> set xs \<Longrightarrow> e = AValue \<or> e = AValueOrEnd \<Longrightarrow>
            feed (Parsing fs e) (f x @ r) = feed (push_value (g x) fs) r"
    and e: "e = AValue \<or> e = AValueOrEnd"
  shows "feed (Parsing fs e) (CHR ''['' # join_commas (map f xs) @ CHR '']'' # r)
           = feed (push_value (JArray (map g xs)) fs) r"
proof (cases xs)
  case Nil
  with e show ?thesis by (auto simp: feed_punct)
next
  case (Cons y ys)
  have "feed (Parsing fs e) (CHR ''['' # join_commas (map f xs) @ CHR '']'' # r)
          = feed (Parsing (InArray [] # fs) AValueOrEnd) (join_commas (map f xs) @ CHR '']'' # r)"
    using e by (auto simp: feed_punct)
  also have "\<dots> = feed (push_value (JArray (rev [] @ map g xs)) fs) r"
    using Cons elem by (intro feed_elements) auto
  finally show ?thesis by simp
qed

lemma feed_messages:
  assumes "e = AValue \<or> e = AValueOrEnd"
  shows "feed (Parsing fs e) (CHR ''['' # join_commas (map message_json ms) @ CHR '']'' # r)
           = feed (push_value (JArray (map message_value ms)) fs) r"
  using assms by (intro feed_array feed_message) auto

lemma feed_conversation:
  assumes "e = AValue \<or> e = AValueOrEnd"
  shows "feed (Parsing fs e) (conversation_json c @ r) = feed (push_value (conversation_value c) fs) r"
  using assms
  by (auto simp: conversation_json_def conversation_value_def json_member_def
        feed_punct(1,2,5,6) feed_quote feed_show_int feed_messages)

lemma parse_stringify: "JSON_parse (JSON_stringify cs) = Inr (collection_value cs)"
proof -
  have "feed (Parsing [] AValue) (CHR ''['' # join_commas (map conversation_json cs) @ CHR '']'' # [])
          = feed (push_value (JArray (map conversation_value cs)) []) []"
    by (intro feed_array feed_conversation) auto
  then show ?thesis
    by (simp add: JSON_parse_feed JSON_stringify_def collection_value_def feed_Nil)
qed

lemma digit_code: "k < 10 \<Longrightarrow> (of_char (''0123456789'' ! k) :: nat) = 48 + k"
  by (drule below_ten) auto

lemma digit_inj:
  assumes "k < 10" "j < 10" "''0123456789'' ! k = ''0123456789'' ! j"
  shows "k = j"
proof -
  have "(48 + k :: nat) = of_char (''0123456789'' ! k)"
    using assms(1) by (simp only: digit_code)
  also have "\<dots> = of_char (''0123456789'' ! j)" by (simp only: assms(3))
  also have "\<dots> = 48 + j" using assms(2) by (simp only: digit_code)
  finally show ?thesis by simp
qed

lemma show_nat_nonempty': "[] \<noteq> show_nat n"
  using show_nat_nonempty [of n] by simp

lemma show_nat_inj: "show_nat n = show_nat m \<Longrightarrow> n = m"
proof (induction n arbitrary: m rule: show_nat.induct)
  case (1 n)
  show ?case
  proof (cases "n < 10")
    case small: True
    show ?thesis
    proof (cases "m < 10")
      case True
      with small "1.prems" show ?thesis
        by (simp add: show_nat.simps [of n] show_nat.simps [of m] digit_inj)
    next
      case False
      with small "1.prems" show ?thesis
        by (simp add: show_nat.simps [of n] show_nat.simps [of m] show_nat_nonempty')
    qed
  next
    case big: False
    show ?thesis
    proof (cases "m < 10")
      case True
      with big "1.prems" show ?thesis
        by (simp add: show_nat.simps [of n] show_nat.simps [of m] show_nat_nonempty)
    next
      case False
      with big "1.prems"
      have eq: "show_nat (n div 10) = show_nat (m div 10)"
        and d: "''0123456789'' ! (n mod 10) = ''0123456789'' ! (m mod 10)"
        by (simp_all add: show_nat.simps [of n] show_nat.simps [of m])
      from "1.IH" [OF big eq] have "n div 10 = m div 10" .
      moreover from d have "n mod 10 = m mod 10" by (intro digit_inj) simp_all
      ultimately show ?thesis by (metis div_mult_mod_eq)
    qed
  qed
qed

lemma show_nat_no_minus: "show_nat n \<noteq> CHR ''-'' # s"
proof
  assume "show_nat n = CHR ''-'' # s"
  then have "CHR ''-'' \<in> set (show_nat n)" by simp
  then have "is_digit CHR ''-''" by (rule show_nat_digits)
  then show False by (simp add: is_digit_def)
qed

lemma show_int_inj: "show_int i = show_int j \<Longrightarrow> i = j"
proof -
  assume eq: "show_int i = show_int j"
  consider "i < 0" "j < 0" | "i < 0" "\<not> j < 0" | "\<not> i < 0" "j < 0" | "\<not> i < 0" "\<not> j < 0"
    by blast
  then show ?thesis
  proof cases
    case 1
    with eq have "nat (- i) = nat (- j)" by (auto simp: show_int_def dest: show_nat_inj)
    with 1 show ?thesis by simp
  next
    case 2
    with eq have "show_nat (nat j) = CHR ''-'' # show_nat (nat (- i))"
      by (simp add: show_int_def)
    then show ?thesis using show_nat_no_minus by blast
  next
    case 3
    with eq show ?thesis using show_nat_no_minus [of "nat i"] by (simp add: show_int_def)
  next
    case 4
    with eq have "nat i = nat j" by (auto simp: show_int_def dest: show_nat_inj)
    with 4 show ?thesis by simp
  qed
qed

lemma units_eq_iff [simp]: "(units s = units t) = (s = t)"
proof
  show "units s = units t \<Longrightarrow> s = t"
  proof (induction s arbitrary: t)
    case Nil
    then show ?case by (simp add: units_def)
  next
    case (Cons c s)
    then show ?case by (cases t) (auto simp: units_def)
  qed
qed simp

lemma show_int_eq_iff [simp]: "(show_int i = show_int j) = (i = j)"
  using show_int_inj by blast

lemma message_value_inj: "message_value m = message_value m' \<Longrightarrow> m = m'"
proof -
  assume eq: "message_value m = message_value m'"
  have "msg_id m = msg_id m' \<and> msg_text m = msg_text m' \<and> isUser m = isUser m'
        \<and> modelId m = modelId m' \<and> timestamp m = timestamp m' \<and> isTyping m = isTyping m'"
    using eq
    by (cases "modelId m"; cases "modelId m'"; cases "isTyping m"; cases "isTyping m'")
       (simp_all add: message_value_def)
  then show ?thesis by (intro message.equality) simp_all
qed

lemma map_message_value_eq_iff [simp]:
  "(map message_value ms = map message_value ms') = (ms = ms')"
proof
  show "map message_value ms = map message_value ms' \<Longrightarrow> ms = ms'"
  proof (induction ms arbitrary: ms')
    case Nil
    then show ?case by simp
  next
    case (Cons m ms)
    then show ?case by (cases ms') (auto dest: message_value_inj)
  qed
qed simp

lemma conversation_value_inj: "conversation_value c = conversation_value c' \<Longrightarrow> c = c'"
proof -
  assume eq: "conversation_value c = conversation_value c'"
  then have "conv_id c = conv_id c' \<and> title c = title c' \<and> conv_messages c = conv_messages c'
        \<and> messageCount c = messageCount c' \<and> createdAt c = createdAt c'"
    by (simp add: conversation_value_def)
  then show ?thesis by (intro conversation.equality) simp_all
qed

lemma collection_value_inj: "collection_value cs = collection_value cs' \<Longrightarrow> cs = cs'"
proof (induction cs arbitrary: cs')
  case Nil
  then show ?case by (simp add: collection_value_def)
next
  case (Cons c cs)
  then show ?case by (cases cs') (auto simp: collection_value_def dest: conversation_value_inj)
qed

section \<open>The claims\<close>

lemma parse_brackets: "JSON_parse ''[]'' = Inr (JArray [])"
  by (simp add: JSON_parse_def is_json_space_def cons_token_def)

lemma parse_open: "JSON_parse ''[{'' = Inl SyntaxError"
  by (simp add: JSON_parse_def is_json_space_def cons_token_def)

text \<open>
  C1, as the code has it. The load effect reads the slot once. When the slot is absent
  or holds the empty text, the effect leaves the collection empty and throws nothing.
  When the slot holds a text that \<open>JSON.parse\<close> accepts, the value parsed becomes the
  collection; every text the save effect wrote is such a text, and the value parsed from
  it determines the collection it was written from. When the slot holds any other text,
  \<open>JSON.parse\<close> throws a SyntaxError and the effect throws it on: malformed data is
  not taken for an empty collection. The effect throws in no other case.
\<close>

theorem C1_load:
  "loadEffect None = Inr None
   \<and> loadEffect (Some []) = Inr None
   \<and> loadEffect (Some (JSON_stringify cs)) = Inr (Some (collection_value cs))
   \<and> (collection_value cs = collection_value cs' \<longrightarrow> cs = cs')
   \<and> (s \<noteq> [] \<and> JSON_parse s = Inr v \<longrightarrow> loadEffect (Some s) = Inr (Some v))
   \<and> (s \<noteq> [] \<and> JSON_parse s = Inl SyntaxError \<longrightarrow> loadEffect (Some s) = Inl SyntaxError)
   \<and> (loadEffect saved = Inl e \<longrightarrow>
        (\<exists>t. saved = Some t \<and> t \<noteq> [] \<and> JSON_parse t = Inl SyntaxError))"
proof -
  have "JSON_stringify cs \<noteq> []" by (simp add: JSON_stringify_def)
  then have "loadEffect (Some (JSON_stringify cs)) = Inr (Some (collection_value cs))"
    by (simp add: loadEffect_def parse_stringify)
  moreover have "collection_value cs = collection_value cs' \<longrightarrow> cs = cs'"
    by (auto dest: collection_value_inj)
  moreover have "loadEffect saved = Inl e \<longrightarrow>
        (\<exists>t. saved = Some t \<and> t \<noteq> [] \<and> JSON_parse t = Inl SyntaxError)"
    by (cases e) (auto simp: loadEffect_def split: option.splits sum.splits if_splits)
  ultimately show ?thesis by (simp add: loadEffect_def)
qed

theorem C1_load_witness:
  "''[]'' \<noteq> [] \<and> JSON_parse ''[]'' = Inr (JArray [])
   \<and> loadEffect (Some ''[]'') = Inr (Some (JArray []))
   \<and> ''[{'' \<noteq> [] \<and> JSON_parse ''[{'' = Inl SyntaxError
   \<and> loadEffect (Some ''[{'') = Inl SyntaxError
   \<and> loadEffect (heritagebot_conversations one_chat)
       = Inr (Some (collection_value (conversations one_chat)))"
  using C1_load [of "conversations one_chat" "conversations one_chat" "''[]''" "JArray []"
      "Some ''[{''" SyntaxError]
    C1_load [of "conversations one_chat" "conversations one_chat" "''[{''" "JArray []"
      "Some ''[{''" SyntaxError]
  by (simp add: parse_brackets parse_open one_chat_eval)

text \<open>
  C1 as stated fails on malformed data: for a slot that holds an unfinished array, a
  text that is no JSON at all, or the first 12 characters of a blob the page itself
  wrote, the load effect throws.
\<close>

theorem C1_malformed_counterexample:
  "loadEffect (Some ''[{'') = Inl SyntaxError
   \<and> loadEffect (Some ''not json'') = Inl SyntaxError
   \<and> loadEffect (Some (take 12 (JSON_stringify (conversations one_chat)))) = Inl SyntaxError"
  by (simp add: loadEffect_def JSON_parse_def is_json_space_def cons_token_def one_chat_eval
      JSON_stringify_def conversation_json_def json_member_def quote_def escape_char_def
      show_int_def show_nat.simps lex_number_def lex_unsigned_def lex_int_def lex_digits_def
      lex_frac_def lex_exp_def is_digit_def cons_unit_def escape_value_def)

lemma emptied_collection_not_saved:
  assumes "conversations (step ev st) = []"
  shows "heritagebot_conversations (step ev st) = heritagebot_conversations st"
proof (cases ev)
  case (Settled k out now ts)
  with assms show ?thesis
    by (cases out) (simp_all add: settle_slot split: if_splits)
next
  case (Deleted cid)
  with assms show ?thesis by (simp add: delete_slot)
qed (simp_all add: handleSubmit_def clickSuggestion_def handleNewChat_def
       handleSendMessage_frame handleSelectConversation_frame)

text \<open>
  What the save effect guarantees, over all events. An event that replaces the
  collection (a deletion, or a remote call that settles with an answer, which appends
  an exchange or creates a conversation) and leaves it not empty is followed by a write
  of the serialization of the whole collection to the slot, so that the slot then holds
  the serialization of the collection in memory; every other event leaves both the
  collection and the slot unchanged.
\<close>

lemma saved_when_not_empty:
  "(mutates ev st \<and> conversations (step ev st) \<noteq> [] \<longrightarrow>
      heritagebot_conversations (step ev st) = Some (JSON_stringify (conversations (step ev st))))
   \<and> (\<not> mutates ev st \<longrightarrow>
        conversations (step ev st) = conversations st
        \<and> heritagebot_conversations (step ev st) = heritagebot_conversations st)"
proof (cases ev)
  case (Settled k out now ts)
  show ?thesis
  proof (cases out)
    case (Ok_response a mu)
    with Settled show ?thesis by (simp add: settle_slot)
  next
    case (Rejected m)
    with Settled show ?thesis
      by (simp add: settle_slot settle_failed_conversations sendMessage_def)
  next
    case (Ok_unparseable m)
    with Settled show ?thesis
      by (simp add: settle_slot settle_failed_conversations sendMessage_def)
  next
    case (Error_response s d)
    with Settled show ?thesis
      by (simp add: settle_slot settle_failed_conversations sendMessage_def)
  qed
next
  case (Deleted cid)
  then show ?thesis by (simp add: delete_slot)
qed (simp_all add: handleSubmit_def clickSuggestion_def handleNewChat_def
       handleSendMessage_frame handleSelectConversation_frame)

lemma saved_when_not_empty_example:
  "mutates (Deleted 1800) two_chats
   \<and> map conv_id (conversations (step (Deleted 1800) two_chats)) = [2800]
   \<and> heritagebot_conversations (step (Deleted 1800) two_chats)
       = Some (JSON_stringify (conversations (step (Deleted 1800) two_chats)))
   \<and> \<not> mutates NewChatClicked two_chats
   \<and> conversations (step NewChatClicked two_chats) = conversations two_chats
   \<and> heritagebot_conversations (step NewChatClicked two_chats) = heritagebot_conversations two_chats"
proof -
  have ids: "map conv_id (conversations (step (Deleted 1800) two_chats)) = [2800]"
    by (simp add: handleDeleteConversation_def Let_def conv_id_filter two_chats_eval)
  then have "conversations (step (Deleted 1800) two_chats) \<noteq> []" by auto
  then show ?thesis
    using saved_when_not_empty [of "Deleted 1800" two_chats]
      saved_when_not_empty [of NewChatClicked two_chats] ids
    by simp
qed

text \<open>
  C2, evaluated on the code. After one completed exchange the slot holds the
  serialization of the one-conversation collection. Deleting that conversation, the
  last one, empties the collection, and the save effect, which writes only a collection
  that is not empty, writes nothing (lemma \<open>emptied_collection_not_saved\<close>): the slot
  still holds the old text, which is not the serialization of the empty collection, and
  a load from the slot reads the deleted conversation back. Deleting a conversation that
  is not the last one is written to the slot (lemma \<open>saved_when_not_empty_example\<close>).
\<close>

theorem C2_delete_last_not_saved:
  "heritagebot_conversations one_chat = Some (JSON_stringify (conversations one_chat))
   \<and> map conv_id (conversations one_chat) = [1800]
   \<and> conversations (step (Deleted 1800) one_chat) = []
   \<and> heritagebot_conversations (step (Deleted 1800) one_chat) = heritagebot_conversations one_chat
   \<and> heritagebot_conversations (step (Deleted 1800) one_chat)
       \<noteq> Some (JSON_stringify (conversations (step (Deleted 1800) one_chat)))
   \<and> loadEffect (heritagebot_conversations (step (Deleted 1800) one_chat))
       = Inr (Some (collection_value (conversations one_chat)))"
proof -
  have slot: "heritagebot_conversations one_chat = Some (JSON_stringify (conversations one_chat))"
    by (simp add: one_chat_eval)
  have gone: "conversations (step (Deleted 1800) one_chat) = []"
    by (simp add: one_chat_eval handleDeleteConversation_def handleNewChat_def Let_def)
  have kept: "heritagebot_conversations (step (Deleted 1800) one_chat)
                = heritagebot_conversations one_chat"
    using gone by (rule emptied_collection_not_saved)
  have stale: "heritagebot_conversations (step (Deleted 1800) one_chat)
                 \<noteq> Some (JSON_stringify (conversations (step (Deleted 1800) one_chat)))"
    unfolding kept gone by (simp add: one_chat_eval JSON_stringify_Cons)
  have "JSON_stringify (conversations one_chat) \<noteq> []" by (simp add: JSON_stringify_def)
  then have reread: "loadEffect (heritagebot_conversations (step (Deleted 1800) one_chat))
                = Inr (Some (collection_value (conversations one_chat)))"
    unfolding kept slot by (simp add: loadEffect_def parse_stringify)
  have ids: "map conv_id (conversations one_chat) = [1800]" by (simp add: one_chat_eval)
  from slot ids gone kept stale reread show ?thesis by simp
qed

text \<open>
  C3, evaluated on the code. The form of the input box is gated by \<open>isLoading\<close>
  (lemma \<open>gate_while_loading\<close>), but the suggestion buttons call
  \<open>handleSendMessage\<close> with no gate: after a submission that is still in flight and a
  click on New Chat, the welcome screen is back, and a click on the first suggestion
  starts a second remote call and changes the active list while the first call is still
  outstanding.
\<close>

theorem C3_suggestion_while_in_flight:
  "isLoading (run [Typed ''hello'', Submitted 1000 ''t'' 1000 ''t'', NewChatClicked] (initial_state None))
   \<and> length (in_flight (run [Typed ''hello'', Submitted 1000 ''t'' 1000 ''t'', NewChatClicked]
                 (initial_state None))) = 1
   \<and> messages (run [Typed ''hello'', Submitted 1000 ''t'' 1000 ''t'', NewChatClicked]
                 (initial_state None)) = []
   \<and> length (in_flight (run [Typed ''hello'', Submitted 1000 ''t'' 1000 ''t'', NewChatClicked,
                       Suggested 0 2000 ''t'' 2000 ''t''] (initial_state None))) = 2
   \<and> map msg_text (messages (run [Typed ''hello'', Submitted 1000 ''t'' 1000 ''t'', NewChatClicked,
                       Suggested 0 2000 ''t'' 2000 ''t''] (initial_state None)))
       = [''What is the history of Twinings?'', []]"
  by (simp add: Let_def initial_state_def handleSubmit_def trim_def is_js_space_def
        handleSendMessage_def handleNewChat_def clickSuggestion_def showWelcome_def suggestions_def)

text \<open>
  What settling with an answer does to the collection. Let a call of
  \<open>handleSendMessage\<close> be made in state \<open>st\<close> and settle with an answer in state
  \<open>st'\<close>. When a conversation was current at the call (the reference is truthy: set,
  and not the number 0, which no \<open>Date.now()\<close> identifier is), every conversation
  that the collection holds at the settlement with that identifier gets the user message
  and the resolved assistant message appended and its message count raised by 2, each
  other conversation is unchanged, and the current reference stays. When none was
  current, a new conversation holding exactly those two messages, titled with the first
  50 characters of the submitted text and counted 2, is put in front of the collection
  and made current.
\<close>

lemma exchange_stored:
  "(let r = last (in_flight (handleSendMessage text now1 ts1 now2 ts2 st));
        st2 = settle r (Ok_response a mu) now ts st';
        u = \<lparr>msg_id = now1, msg_text = text, isUser = True, modelId = None,
             timestamp = ts1, isTyping = None\<rparr>;
        v = \<lparr>msg_id = now2 + 1, msg_text = a, isUser = False,
             modelId = Some (selectedModel st), timestamp = ts2, isTyping = Some False\<rparr>
    in (truthy_id (currentConversationId st) \<longrightarrow>
          length (conversations st2) = length (conversations st')
          \<and> (\<forall>i < length (conversations st').
                if Some (conv_id (conversations st' ! i)) = currentConversationId st
                then conv_messages (conversations st2 ! i) = conv_messages (conversations st' ! i) @ [u, v]
                   \<and> messageCount (conversations st2 ! i) = messageCount (conversations st' ! i) + 2
                   \<and> conv_id (conversations st2 ! i) = conv_id (conversations st' ! i)
                   \<and> createdAt (conversations st2 ! i) = createdAt (conversations st' ! i)
                else conversations st2 ! i = conversations st' ! i)
          \<and> currentConversationId st2 = currentConversationId st')
     \<and> (\<not> truthy_id (currentConversationId st) \<longrightarrow>
          conversations st2 =
            \<lparr>conv_id = now, title = take 50 text, conv_messages = [u, v],
             messageCount = 2, createdAt = ts\<rparr> # conversations st'
          \<and> currentConversationId st2 = Some now))"
  by (simp add: Let_def last_in_flight settle_ok_conversations settle_ok_current
        append_exchange_def resolved_def)

lemma exchange_stored_example:
  "truthy_id (currentConversationId one_chat)
   \<and> map messageCount (conversations
        (settle (last (in_flight (handleSendMessage ''again'' 1900 ''t4'' 1900 ''t5'' one_chat)))
           (Ok_response ''sure'' ''gpt'') 2000 ''t6''
           (handleSendMessage ''again'' 1900 ''t4'' 1900 ''t5'' one_chat))) = [4]
   \<and> map (map msg_text \<circ> conv_messages) (conversations
        (settle (last (in_flight (handleSendMessage ''again'' 1900 ''t4'' 1900 ''t5'' one_chat)))
           (Ok_response ''sure'' ''gpt'') 2000 ''t6''
           (handleSendMessage ''again'' 1900 ''t4'' 1900 ''t5'' one_chat)))
       = [[''hi'', ''yo'', ''again'', ''sure'']]
   \<and> \<not> truthy_id (currentConversationId (initial_state None))
   \<and> conversations
        (settle (last (in_flight (handleSendMessage ''hi'' 1700 ''t1'' 1700 ''t2'' (initial_state None))))
           (Ok_response ''yo'' ''gpt'') 1800 ''t3''
           (handleSendMessage ''hi'' 1700 ''t1'' 1700 ''t2'' (initial_state None)))
       = conversations one_chat
   \<and> currentConversationId
        (settle (last (in_flight (handleSendMessage ''hi'' 1700 ''t1'' 1700 ''t2'' (initial_state None))))
           (Ok_response ''yo'' ''gpt'') 1800 ''t3''
           (handleSendMessage ''hi'' 1700 ''t1'' 1700 ''t2'' (initial_state None)))
       = Some 1800"
proof -
  have one: "conversations (handleSendMessage ''again'' 1900 ''t4'' 1900 ''t5'' one_chat)
               = conversations one_chat"
    by (rule handleSendMessage_frame)
  show ?thesis
    using exchange_stored [of "''again''" 1900 "''t4''" 1900 "''t5''" one_chat "''sure''" "''gpt''"
        2000 "''t6''" "handleSendMessage ''again'' 1900 ''t4'' 1900 ''t5'' one_chat"]
      exchange_stored [of "''hi''" 1700 "''t1''" 1700 "''t2''" "initial_state None" "''yo''" "''gpt''"
        1800 "''t3''" "handleSendMessage ''hi'' 1700 ''t1'' 1700 ''t2'' (initial_state None)"]
    apply (simp add: Let_def one truthy_id_def)
    apply (simp add: one_chat_eval initial_state_def handleSendMessage_frame)
    apply (simp add: settle_ok_conversations last_in_flight truthy_id_def one_chat_eval
        append_exchange_def resolved_def handleSendMessage_def Let_def)
    done
qed


text \<open>
  C5. When the form is submitted with an input that is not blank and no request is in
  flight, the active list grows by exactly the user message (carrying the trimmed input)
  followed by the pending assistant message (empty text, \<open>isTyping\<close> true), and one
  remote call for that text and the selected model is started. When the call settles
  with the answer \<open>a\<close>, the list keeps its length and the assistant message, in its
  place, carries \<open>a\<close> with \<open>isTyping\<close> false; when no other message of the list
  has the identifier of the pending one, nothing else in the list changes.
\<close>

theorem C5_submit_appends_exchange:
  "trim (input st) \<noteq> [] \<Longrightarrow> \<not> isLoading st \<Longrightarrow>
   (let st1 = handleSubmit now1 ts1 now2 ts2 st;
        r = last (in_flight st1);
        st2 = settle r (Ok_response a mu) now ts st1;
        u = \<lparr>msg_id = now1, msg_text = trim (input st), isUser = True, modelId = None,
             timestamp = ts1, isTyping = None\<rparr>;
        l = \<lparr>msg_id = now2 + 1, msg_text = [], isUser = False,
             modelId = Some (selectedModel st), timestamp = ts2, isTyping = Some True\<rparr>
    in messages st1 = messages st @ [u, l]
     \<and> in_flight st1 = in_flight st @ [r]
     \<and> userMessage r = trim (input st) \<and> seenModel r = selectedModel st
     \<and> length (messages st2) = length (messages st) + 2
     \<and> messages st2 ! (length (messages st) + 1) = l\<lparr>msg_text := a, isTyping := Some False\<rparr>
     \<and> ((\<forall>m\<in>set (messages st @ [u]). msg_id m \<noteq> now2 + 1) \<longrightarrow>
          messages st2 = messages st @ [u, l\<lparr>msg_text := a, isTyping := Some False\<rparr>]))"
proof -
  assume gate: "trim (input st) \<noteq> []" "\<not> isLoading st"
  have sub: "handleSubmit now1 ts1 now2 ts2 st =
      (handleSendMessage (trim (input st)) now1 ts1 now2 ts2 st)\<lparr>input := []\<rparr>"
    using gate by (simp add: handleSubmit_def)
  have fl: "in_flight (handleSubmit now1 ts1 now2 ts2 st) =
      in_flight st @ [last (in_flight (handleSendMessage (trim (input st)) now1 ts1 now2 ts2 st))]"
    unfolding sub by (simp add: handleSendMessage_def Let_def)
  have fresh: "(\<forall>m\<in>set xs. msg_id m \<noteq> k) \<Longrightarrow>
      map (\<lambda>msg. if msg_id msg = k then resolved a msg else msg) xs = xs" for xs k
    by (induction xs) auto
  show ?thesis
    unfolding Let_def fl
    by (simp add: sub messages_handleSendMessage last_in_flight settle_ok_messages
          resolved_def nth_append fresh)
qed

theorem C5_submit_appends_exchange_witness:
  "trim (input ((initial_state None)\<lparr>input := '' hi ''\<rparr>)) \<noteq> []
   \<and> \<not> isLoading ((initial_state None)\<lparr>input := '' hi ''\<rparr>)
   \<and> messages (handleSubmit 1700 ''t1'' 1700 ''t2'' ((initial_state None)\<lparr>input := '' hi ''\<rparr>))
       = [\<lparr>msg_id = 1700, msg_text = ''hi'', isUser = True, modelId = None,
           timestamp = ''t1'', isTyping = None\<rparr>,
          \<lparr>msg_id = 1701, msg_text = [], isUser = False, modelId = Some ''gpt'',
           timestamp = ''t2'', isTyping = Some True\<rparr>]
   \<and> messages
        (settle (last (in_flight
                   (handleSubmit 1700 ''t1'' 1700 ''t2'' ((initial_state None)\<lparr>input := '' hi ''\<rparr>))))
           (Ok_response ''yo'' ''gpt'') 1800 ''t3''
           (handleSubmit 1700 ''t1'' 1700 ''t2'' ((initial_state None)\<lparr>input := '' hi ''\<rparr>)))
       = [\<lparr>msg_id = 1700, msg_text = ''hi'', isUser = True, modelId = None,
           timestamp = ''t1'', isTyping = None\<rparr>,
          \<lparr>msg_id = 1701, msg_text = ''yo'', isUser = False, modelId = Some ''gpt'',
           timestamp = ''t2'', isTyping = Some False\<rparr>]"
proof -
  have t: "trim '' hi '' = ''hi''" by (simp add: trim_def is_js_space_def)
  show ?thesis
    using C5_submit_appends_exchange [of "(initial_state None)\<lparr>input := '' hi ''\<rparr>"
        1700 "''t1''" 1700 "''t2''" "''yo''" "''gpt''" 1800 "''t3''"]
    by (simp add: Let_def t initial_state_def)
qed

text \<open>
  C6, as the code has it. When the remote call of a submission fails with an error of
  message \<open>m\<close>, every message with the identifier of the pending assistant message is
  removed from the active list and the others stay, so the pending message is gone and,
  when the clock did not step back between the two readings of the submission, the user
  message is still there, last in the list; the collection and the slot are untouched.
  The error shown is \<open>m\<close>, or a fixed fallback text when \<open>m\<close> is empty, and \<open>m\<close> is:
  for a response outside 2xx, the \<open>detail\<close> of the body when it is there and not
  empty, else \<open>HTTP error! status: \<close> followed by the status; for a network error or
  an unreadable 2xx body, the message of that error.
\<close>

theorem C6_failed_call:
  "sendMessage out = Inl m \<Longrightarrow>
   (let st1 = handleSendMessage text now1 ts1 now2 ts2 st;
        r = last (in_flight st1);
        st2 = settle r out now ts st1;
        u = \<lparr>msg_id = now1, msg_text = text, isUser = True, modelId = None,
             timestamp = ts1, isTyping = None\<rparr>
    in messages st2 = filter (\<lambda>x. msg_id x \<noteq> now2 + 1) (messages st @ [u])
     \<and> (\<forall>x\<in>set (messages st2). msg_id x \<noteq> now2 + 1)
     \<and> (now1 \<le> now2 \<longrightarrow> u \<in> set (messages st2) \<and> last (messages st2) = u)
     \<and> error st2 = Some (if m \<noteq> [] then m else ''Failed to get response. Please try again.'')
     \<and> isLoading st2 = False
     \<and> conversations st2 = conversations st
     \<and> heritagebot_conversations st2 = heritagebot_conversations st)
   \<and> (case out of
         Error_response status detail \<Rightarrow>
           m = (case detail of
                  None \<Rightarrow> ''HTTP error! status: '' @ show_nat status
                | Some d \<Rightarrow> if d \<noteq> [] then d else ''HTTP error! status: '' @ show_nat status)
           \<and> m \<noteq> []
       | Rejected e \<Rightarrow> m = e
       | Ok_unparseable e \<Rightarrow> m = e
       | Ok_response a mu \<Rightarrow> False)"
proof -
  assume f: "sendMessage out = Inl m"
  have A: "(case out of
         Error_response status detail \<Rightarrow>
           m = (case detail of
                  None \<Rightarrow> ''HTTP error! status: '' @ show_nat status
                | Some d \<Rightarrow> if d \<noteq> [] then d else ''HTTP error! status: '' @ show_nat status)
           \<and> m \<noteq> []
       | Rejected e \<Rightarrow> m = e
       | Ok_unparseable e \<Rightarrow> m = e
       | Ok_response a mu \<Rightarrow> False)"
    using f by (auto simp: sendMessage_def split: fetch_outcome.splits option.splits if_splits)
  show ?thesis
    unfolding Let_def
    by (simp add: A settle_failed [OF f] last_in_flight messages_handleSendMessage)
       (simp add: handleSendMessage_def Let_def)
qed

theorem C6_failed_call_witness:
  "sendMessage (Error_response 503 (Some ''Service down'')) = Inl ''Service down''
   \<and> messages
        (settle (last (in_flight (handleSendMessage ''hi'' 1700 ''t1'' 1700 ''t2'' (initial_state None))))
           (Error_response 503 (Some ''Service down'')) 1800 ''t3''
           (handleSendMessage ''hi'' 1700 ''t1'' 1700 ''t2'' (initial_state None)))
       = [\<lparr>msg_id = 1700, msg_text = ''hi'', isUser = True, modelId = None,
           timestamp = ''t1'', isTyping = None\<rparr>]
   \<and> error
        (settle (last (in_flight (handleSendMessage ''hi'' 1700 ''t1'' 1700 ''t2'' (initial_state None))))
           (Error_response 503 (Some ''Service down'')) 1800 ''t3''
           (handleSendMessage ''hi'' 1700 ''t1'' 1700 ''t2'' (initial_state None)))
       = Some ''Service down''"
proof -
  have f: "sendMessage (Error_response 503 (Some ''Service down'')) = Inl ''Service down''"
    by (simp add: sendMessage_def)
  show ?thesis
    using C6_failed_call [OF f, of "''hi''" 1700 "''t1''" 1700 "''t2''" "initial_state None"
        1800 "''t3''"] f
    by (simp add: Let_def initial_state_def)
qed

text \<open>
  C6 as stated fails on the text of the error. A network error has no response: the
  text shown is the message of the error \<open>fetch\<close> threw, not one derived from an HTTP
  status. And a response outside 2xx whose body carries an empty \<open>detail\<close> is shown
  with the status text, not with its detail.
\<close>

theorem C6_error_text_counterexample:
  "error (settle (last (in_flight (handleSendMessage ''hi'' 1700 ''t'' 1700 ''t'' (initial_state None))))
            (Rejected ''Failed to fetch'') 1800 ''t''
            (handleSendMessage ''hi'' 1700 ''t'' 1700 ''t'' (initial_state None)))
     = Some ''Failed to fetch''
   \<and> take 12 ''Failed to fetch'' \<noteq> ''HTTP error! ''
   \<and> error (settle (last (in_flight (handleSendMessage ''hi'' 1700 ''t'' 1700 ''t'' (initial_state None))))
            (Error_response 500 (Some [])) 1800 ''t''
            (handleSendMessage ''hi'' 1700 ''t'' 1700 ''t'' (initial_state None)))
     = Some ''HTTP error! status: 500''"
  by (simp add: settle_def sendMessage_def show_nat.simps)

text \<open>
  C7. When the input consists of white space only (the empty input included), submitting
  the form changes nothing: the active list, the outstanding remote calls and every
  other part of the state are as before.
\<close>

theorem C7_blank_input_is_rejected:
  "\<forall>c\<in>set (input st). is_js_space c \<Longrightarrow> handleSubmit now1 ts1 now2 ts2 st = st"
  by (simp add: handleSubmit_def trim_blank)

theorem C7_blank_input_is_rejected_witness:
  "(\<forall>c\<in>set (input ((initial_state None)\<lparr>input := [CHR 0x20, CHR 0x09, CHR 0x0A]\<rparr>)). is_js_space c)
   = True
   \<and> handleSubmit 1700 ''a'' 1700 ''b'' ((initial_state None)\<lparr>input := [CHR 0x20, CHR 0x09, CHR 0x0A]\<rparr>)
     = (initial_state None)\<lparr>input := [CHR 0x20, CHR 0x09, CHR 0x0A]\<rparr>"
  using C7_blank_input_is_rejected
    [of "(initial_state None)\<lparr>input := [CHR 0x20, CHR 0x09, CHR 0x0A]\<rparr>" 1700 "''a''" 1700 "''b''"]
  by (simp add: is_js_space_def)

text \<open>
  C8. Deleting a conversation removes from the collection exactly the conversations with
  that identifier and keeps every other one, in order. When the deleted conversation was
  the current one, the active list and the error are cleared and no conversation is
  current, as after New Chat; otherwise the three are unchanged.
\<close>

theorem C8_delete:
  "conversations (handleDeleteConversation cid st) = filter (\<lambda>c. conv_id c \<noteq> cid) (conversations st)
   \<and> (currentConversationId st = Some cid \<longrightarrow>
        messages (handleDeleteConversation cid st) = messages (handleNewChat st)
        \<and> messages (handleDeleteConversation cid st) = []
        \<and> currentConversationId (handleDeleteConversation cid st) = None
        \<and> error (handleDeleteConversation cid st) = None)
   \<and> (currentConversationId st \<noteq> Some cid \<longrightarrow>
        messages (handleDeleteConversation cid st) = messages st
        \<and> currentConversationId (handleDeleteConversation cid st) = currentConversationId st
        \<and> error (handleDeleteConversation cid st) = error st)"
  by (simp add: handleDeleteConversation_def handleNewChat_def Let_def)

theorem C8_delete_witness:
  "currentConversationId two_chats = Some 2800
   \<and> map conv_id (conversations (handleDeleteConversation 2800 two_chats)) = [1800]
   \<and> messages (handleDeleteConversation 2800 two_chats) = []
   \<and> currentConversationId (handleDeleteConversation 2800 two_chats) = None
   \<and> currentConversationId two_chats \<noteq> Some 1800
   \<and> map conv_id (conversations (handleDeleteConversation 1800 two_chats)) = [2800]
   \<and> map msg_id (messages (handleDeleteConversation 1800 two_chats)) = [2700, 2701]
   \<and> currentConversationId (handleDeleteConversation 1800 two_chats) = Some 2800"
  using C8_delete [of 2800 two_chats] C8_delete [of 1800 two_chats]
  by (simp add: two_chats_eval conv_id_filter handleNewChat_def)

text \<open>
  C9. Selecting an identifier that no conversation of the collection has changes nothing
  at all. Selecting one that is there makes the messages of the first conversation with
  that identifier the active list and that identifier current, clears the error, and
  leaves the collection as it is.
\<close>

theorem C9_select:
  "(cid \<notin> conv_id ` set (conversations st) \<longrightarrow> handleSelectConversation cid st = st)
   \<and> (cid \<in> conv_id ` set (conversations st) \<longrightarrow>
        (\<exists>c\<in>set (conversations st). conv_id c = cid
            \<and> find (\<lambda>c. conv_id c = cid) (conversations st) = Some c
            \<and> messages (handleSelectConversation cid st) = conv_messages c)
        \<and> currentConversationId (handleSelectConversation cid st) = Some cid
        \<and> error (handleSelectConversation cid st) = None
        \<and> conversations (handleSelectConversation cid st) = conversations st)"
proof (cases "find (\<lambda>c. conv_id c = cid) (conversations st)")
  case None
  then have "cid \<notin> conv_id ` set (conversations st)"
    by (auto simp: find_None_iff)
  with None show ?thesis by (simp add: handleSelectConversation_def)
next
  case (Some c)
  then have "c \<in> set (conversations st)" "conv_id c = cid"
    by (auto simp: find_Some_iff)
  with Some show ?thesis by (auto simp: handleSelectConversation_def)
qed

theorem C9_select_witness:
  "999 \<notin> conv_id ` set (conversations two_chats)
   \<and> handleSelectConversation 999 two_chats = two_chats
   \<and> 1800 \<in> conv_id ` set (conversations two_chats)
   \<and> currentConversationId (handleSelectConversation 1800 two_chats) = Some 1800
   \<and> conversations (handleSelectConversation 1800 two_chats) = conversations two_chats"
proof -
  have ids: "conv_id ` set (conversations two_chats) = {2800, 1800}"
    using two_chats_eval(2) by (metis list.set(1) list.set(2) set_map)
  show ?thesis
    using C9_select [of 999 two_chats] C9_select [of 1800 two_chats]
    by (simp add: ids)
qed

text \<open>
  C10. The assistant message of a submission carries the model that was selected when
  the submission was made, in the active list and in the conversation that stores the
  exchange, also when another model is selected while the call is outstanding. The
  \<open>model_used\<close> of the response has no influence on the state the call settles into.
\<close>

theorem C10_model_identifier:
  "(let st1 = handleSendMessage text now1 ts1 now2 ts2 st;
        r = last (in_flight st1);
        st2 = settle r (Ok_response a mu) now ts (st1\<lparr>selectedModel := m'\<rparr>)
    in modelId (last (messages st2)) = Some (selectedModel st)
     \<and> settle r (Ok_response a mu) now ts st' = settle r (Ok_response a mu') now ts st'
     \<and> (if truthy_id (currentConversationId st)
         then \<forall>c\<in>set (conversations st2).
                Some (conv_id c) = currentConversationId st \<longrightarrow>
                modelId (last (conv_messages c)) = Some (selectedModel st)
         else modelId (last (conv_messages (hd (conversations st2)))) = Some (selectedModel st)))"
  unfolding Let_def
  using settle_ignores_model_used [of _ a mu now ts st' mu']
  by (auto simp: last_in_flight settle_ok_messages messages_handleSendMessage resolved_def
        settle_ok_conversations append_exchange_def)

theorem C10_model_identifier_witness:
  "map modelId (messages
      (settle (last (in_flight (handleSendMessage ''again'' 1900 ''t4'' 1900 ''t5'' one_chat)))
         (Ok_response ''sure'' ''mistral'') 2000 ''t6''
         ((handleSendMessage ''again'' 1900 ''t4'' 1900 ''t5'' one_chat)\<lparr>selectedModel := ''claude''\<rparr>)))
     = [None, Some ''gpt'', None, Some ''gpt'']
   \<and> map (map modelId \<circ> conv_messages) (conversations
      (settle (last (in_flight (handleSendMessage ''again'' 1900 ''t4'' 1900 ''t5'' one_chat)))
         (Ok_response ''sure'' ''mistral'') 2000 ''t6''
         ((handleSendMessage ''again'' 1900 ''t4'' 1900 ''t5'' one_chat)\<lparr>selectedModel := ''claude''\<rparr>)))
     = [[None, Some ''gpt'', None, Some ''gpt'']]
   \<and> settle (last (in_flight (handleSendMessage ''again'' 1900 ''t4'' 1900 ''t5'' one_chat)))
         (Ok_response ''sure'' ''mistral'') 2000 ''t6'' one_chat
     = settle (last (in_flight (handleSendMessage ''again'' 1900 ''t4'' 1900 ''t5'' one_chat)))
         (Ok_response ''sure'' ''gpt'') 2000 ''t6'' one_chat"
  using C10_model_identifier [of "''again''" 1900 "''t4''" 1900 "''t5''" one_chat "''sure''"
      "''mistral''" 2000 "''t6''" "''claude''" one_chat "''gpt''"]
  by (simp add: Let_def one_chat_eval last_in_flight settle_ok_messages settle_ok_conversations
        handleSendMessage_def truthy_id_def append_exchange_def resolved_def)

section \<open>Further properties\<close>

text \<open>
  The gate of the form does its work: in every run from the freshly loaded page in
  which no suggestion button is clicked, at most one remote call is outstanding at any
  time, and \<open>isLoading\<close> is true exactly while one is.
\<close>

theorem form_only_single_flight:
  "\<forall>e\<in>set evs. \<not> is_suggestion e \<Longrightarrow>
   length (in_flight (run evs (initial_state stored))) \<le> 1
   \<and> isLoading (run evs (initial_state stored)) = (in_flight (run evs (initial_state stored)) \<noteq> [])"
proof -
  assume a: "\<forall>e\<in>set evs. \<not> is_suggestion e"
  have "gated (initial_state stored)" by (simp add: gated_def initial_state_def)
  from gated_run [OF this a] show ?thesis by (simp add: gated_def)
qed

theorem form_only_single_flight_witness:
  "(\<forall>e\<in>set [Typed ''a'', Submitted 1 ''t'' 1 ''t'', Typed ''b'', Submitted 2 ''t'' 2 ''t''].
      \<not> is_suggestion e) = True
   \<and> length (in_flight (run [Typed ''a'', Submitted 1 ''t'' 1 ''t'', Typed ''b'', Submitted 2 ''t'' 2 ''t'']
        (initial_state None))) = 1
   \<and> map msg_text (messages (run [Typed ''a'', Submitted 1 ''t'' 1 ''t'', Typed ''b'', Submitted 2 ''t'' 2 ''t'']
        (initial_state None))) = [''a'', []]"
proof -
  have "length (in_flight (run [Typed ''a'', Submitted 1 ''t'' 1 ''t'', Typed ''b'', Submitted 2 ''t'' 2 ''t'']
        (initial_state None))) = 1"
    by (simp add: initial_state_def handleSubmit_def trim_def is_js_space_def
        handleSendMessage_def Let_def)
  moreover have "map msg_text (messages (run [Typed ''a'', Submitted 1 ''t'' 1 ''t'', Typed ''b'', Submitted 2 ''t'' 2 ''t'']
        (initial_state None))) = [''a'', []]"
    by (simp add: initial_state_def handleSubmit_def trim_def is_js_space_def
        handleSendMessage_def Let_def)
  ultimately show ?thesis
    using form_only_single_flight
      [of "[Typed ''a'', Submitted 1 ''t'' 1 ''t'', Typed ''b'', Submitted 2 ''t'' 2 ''t'']" None]
    by simp
qed

end
